theory Spec2Isabelle
  imports Complex_Main "HOL-Library.Multiset"
begin

section \<open>Values, errors and the capabilities the installer calls into\<close>

text \<open>
  The installer is TypeScript on Deno. Strings are modelled as \<open>string\<close>; a parsed JSONC
  document is a \<open>json\<close> value, an object being the list of its own properties.
  A JavaScript number that only takes part in comparisons (a component's priority) is a
  rational: every finite double is one, and the code only looks at the order.
\<close>

datatype json =
    JNull
  | JBool bool
  | JNum rat
  | JStr string
  | JArr "json list"
  | JObj "(string \<times> json) list"

text \<open>
  Every \<open>throw\<close> of the source and every failure of a Deno or library call is a value of
  \<open>error\<close>. \<open>ResolveFailed\<close> is the error \<open>resolveManifest\<close> rethrows around its cause.
\<close>

datatype error =
    HomeNotSet
  | NotFound string
  | OsFailure string
  | TypeError string
  | SyntaxError string
  | SchemaError "string list"
  | ManifestNotFound string
  | MissingSrcDir string string
  | ConfigSourceNotFound string string string
  | ResolveFailed string error

record FileInfo =
  isFile :: bool
  isDirectory :: bool
  isSymlink :: bool
  mode :: "nat option"

record DirEntry =
  entry_name :: string
  entry_isFile :: bool
  entry_isDirectory :: bool

datatype linkType = LinkFile | LinkDir

text \<open>
  What the code imports and does not define, taken as parameters: the process environment,
  the functions of \<open>@std/path\<close>, \<open>@std/fs\<close>, \<open>@std/jsonc\<close> and \<open>Deno\<close>, the URL
  parser, \<open>String.prototype.localeCompare\<close> and the \<open>Number\<close> conversion of a value
  that is neither a number, a boolean nor null. \<open>'w\<close> is the state of the file system;
  a call that reads it returns a result or an error, a call that writes it returns the
  new state or an error.
\<close>

record 'w sys =
  env_HOME :: "string option"
  cwd :: string
  path_resolve :: "string list \<Rightarrow> string"
  path_join :: "string list \<Rightarrow> string"
  url_parent :: "string \<Rightarrow> string"
  localeCompare :: "string \<Rightarrow> string \<Rightarrow> int"
  jsNumber :: "json \<Rightarrow> rat option"
  jsonc_parse :: "string \<Rightarrow> error + json"
  fs_exists :: "string \<Rightarrow> 'w \<Rightarrow> error + bool"
  fs_stat :: "string \<Rightarrow> 'w \<Rightarrow> error + FileInfo"
  fs_lstat :: "string \<Rightarrow> 'w \<Rightarrow> error + FileInfo"
  fs_readDir :: "string \<Rightarrow> 'w \<Rightarrow> error + DirEntry list"
  fs_readTextFile :: "string \<Rightarrow> 'w \<Rightarrow> error + string"
  fs_chmod :: "string \<Rightarrow> nat \<Rightarrow> 'w \<Rightarrow> error + 'w"
  fs_ensureDir :: "string \<Rightarrow> 'w \<Rightarrow> error + 'w"
  fs_remove :: "string \<Rightarrow> 'w \<Rightarrow> error + 'w"
  fs_copy :: "string \<Rightarrow> string \<Rightarrow> 'w \<Rightarrow> error + 'w"
  fs_symlink :: "string \<Rightarrow> string \<Rightarrow> linkType \<Rightarrow> 'w \<Rightarrow> error + 'w"

section \<open>Path resolver (lib/fs.ts)\<close>

definition startsWith :: "string \<Rightarrow> string \<Rightarrow> bool" where
  "startsWith s pre = (take (length pre) s = pre)"

text \<open>
  \<open>String.prototype.replace\<close> with a string as replacement reads \<open>$$\<close>, \<open>$&\<close>,
  \<open>$`\<close> and \<open>$'\<close> in it as patterns. \<open>getSubstitution matched after template\<close> is the text
  put in place of the match, for a match at the start of the subject (nothing precedes it)
  and a pattern with no capture group (so \<open>$1\<close> and \<open>$<\<close> stay as they are).
\<close>

fun getSubstitution :: "string \<Rightarrow> string \<Rightarrow> string \<Rightarrow> string" where
  "getSubstitution m a [] = []"
| "getSubstitution m a [c] = [c]"
| "getSubstitution m a (c # d # t) =
     (if c = CHR ''$'' then
        (if d = CHR ''$'' then CHR ''$'' # getSubstitution m a t
         else if d = CHR ''&'' then m @ getSubstitution m a t
         else if d = CHR 0x60 then getSubstitution m a t
         else if d = CHR 0x27 then a @ getSubstitution m a t
         else c # getSubstitution m a (d # t))
      else c # getSubstitution m a (d # t))"

text \<open>
  \<open>path.replace(/^~(?=$|\/|\\)/, home)\<close>: the pattern matches a \<open>~\<close> at position 0 that
  is followed by the end of the string, a slash or a backslash; the lookahead consumes
  nothing. Without a match the string is returned as it is.
\<close>

definition replaceLeadingTilde :: "string \<Rightarrow> string \<Rightarrow> string" where
  "replaceLeadingTilde p home =
     (case p of
        [] \<Rightarrow> p
      | c # rest \<Rightarrow>
          (if c = CHR ''~'' \<and> (rest = [] \<or> hd rest = CHR ''/'' \<or> hd rest = CHR 0x5C)
           then getSubstitution ''~'' rest home @ rest
           else p))"

definition resolveHomePath :: "'w sys \<Rightarrow> string \<Rightarrow> error + string" where
  "resolveHomePath S p =
     (if startsWith p ''~'' then
        (case env_HOME S of
           None \<Rightarrow> Inl HomeNotSet
         | Some home \<Rightarrow>
             (if home = [] then Inl HomeNotSet
              else Inr (path_resolve S [replaceLeadingTilde p home])))
      else Inr (path_resolve S [p]))"

section \<open>Manifest schema and validator (lib/manifest.ts, constants/distro.ts)\<close>

definition PackagerByDistro :: "(string \<times> string) list" where
  "PackagerByDistro =
     [(''fedora'', ''dnf''), (''nobara'', ''dnf''), (''arch'', ''pacman''), (''cachyos'', ''pacman'')]"

definition getAvailableDistros :: "string list" where
  "getAvailableDistros = map fst PackagerByDistro"

definition availableTags :: "string list" where
  "availableTags = getAvailableDistros @ [''*'']"

datatype installMethod = Copy | Symlink

record ConfigSrc =
  cfg_from :: string
  cfg_to :: string
  cfg_method :: installMethod
  force :: bool
  tags :: "string list"

text \<open>
  \<open>'c\<close> is how a list of build commands is held: \<open>string list\<close> for the value the
  validator returns, an address (\<open>nat\<close>) where the arrays live in a store and are
  shared by reference, as in the running program.
\<close>

record 'c DotfileManifest =
  name :: string
  description :: "string option"
  priority :: "rat option"
  builds :: "(string \<times> 'c) list option"
  configs :: "ConfigSrc list option"
  cleanup :: "string list option"

text \<open>
  The zod schemas. A field's validator takes the property's value, \<open>None\<close> when the
  object has no such property (\<open>undefined\<close>), and returns the typed value, or
  \<open>None\<close> for an issue. \<open>.default(d)\<close> and \<open>.optional()\<close> answer \<open>undefined\<close>
  themselves and hand every other input to the inner schema.
\<close>

definition zString :: "json option \<Rightarrow> string option" where
  "zString v = (case v of Some (JStr s) \<Rightarrow> Some s | _ \<Rightarrow> None)"

definition zEnum :: "string list \<Rightarrow> json option \<Rightarrow> string option" where
  "zEnum vals v =
     (case v of Some (JStr s) \<Rightarrow> (if s \<in> set vals then Some s else None) | _ \<Rightarrow> None)"

definition zMethod :: "json option \<Rightarrow> installMethod option" where
  "zMethod v =
     (case zEnum [''copy'', ''symlink''] v of
        None \<Rightarrow> None
      | Some s \<Rightarrow> Some (if s = ''copy'' then Copy else Symlink))"

definition zArray :: "(json option \<Rightarrow> 'a option) \<Rightarrow> json option \<Rightarrow> 'a list option" where
  "zArray elem v =
     (case v of Some (JArr xs) \<Rightarrow> those (map (\<lambda>x. elem (Some x)) xs) | _ \<Rightarrow> None)"

definition zDefault :: "'a \<Rightarrow> (json option \<Rightarrow> 'a option) \<Rightarrow> json option \<Rightarrow> 'a option" where
  "zDefault d inner v = (case v of None \<Rightarrow> Some d | Some x \<Rightarrow> inner (Some x))"

definition zOptional :: "(json option \<Rightarrow> 'a option) \<Rightarrow> json option \<Rightarrow> 'a option option" where
  "zOptional inner v =
     (case v of None \<Rightarrow> Some None | Some x \<Rightarrow> map_option Some (inner (Some x)))"

text \<open>\<open>z.coerce.boolean()\<close> applies \<open>Boolean\<close> to its input and accepts the result.\<close>

definition jsBoolean :: "json \<Rightarrow> bool" where
  "jsBoolean v =
     (case v of
        JNull \<Rightarrow> False
      | JBool b \<Rightarrow> b
      | JNum n \<Rightarrow> n \<noteq> 0
      | JStr s \<Rightarrow> s \<noteq> []
      | JArr _ \<Rightarrow> True
      | JObj _ \<Rightarrow> True)"

definition zCoerceBoolean :: "json option \<Rightarrow> bool option" where
  "zCoerceBoolean v = (case v of None \<Rightarrow> Some False | Some x \<Rightarrow> Some (jsBoolean x))"

text \<open>
  \<open>z.coerce.number()\<close> applies \<open>Number\<close> and accepts a finite number; \<open>jsNumber\<close> is
  \<open>Number\<close> on strings, arrays and objects (\<open>None\<close> where it gives NaN or an infinity).
\<close>

definition zCoerceNumber :: "'w sys \<Rightarrow> json option \<Rightarrow> rat option" where
  "zCoerceNumber S v =
     (case v of
        None \<Rightarrow> None
      | Some JNull \<Rightarrow> Some 0
      | Some (JBool b) \<Rightarrow> Some (if b then 1 else 0)
      | Some (JNum n) \<Rightarrow> Some n
      | Some x \<Rightarrow> jsNumber S x)"

text \<open>
  \<open>z.partialRecord(z.enum(availableTags), z.array(z.string()))\<close>: a plain object, every
  own key one of the tags, every value an array of strings.
\<close>

definition zBuildsEntry :: "string \<times> json \<Rightarrow> (string \<times> string list) option" where
  "zBuildsEntry kv =
     (case zEnum availableTags (Some (JStr (fst kv))) of
        None \<Rightarrow> None
      | Some k \<Rightarrow>
          (case zArray zString (Some (snd kv)) of
             None \<Rightarrow> None
           | Some cmds \<Rightarrow> Some (k, cmds)))"

definition zBuilds :: "json option \<Rightarrow> (string \<times> string list) list option" where
  "zBuilds v = (case v of Some (JObj kvs) \<Rightarrow> those (map zBuildsEntry kvs) | _ \<Rightarrow> None)"

text \<open>A property of a parsed document; \<open>None\<close> when it is unset (or the value is no object).\<close>

definition property :: "json \<Rightarrow> string \<Rightarrow> json option" where
  "property v k = (case v of JObj kvs \<Rightarrow> map_of kvs k | _ \<Rightarrow> None)"

definition issue :: "string \<Rightarrow> 'a option \<Rightarrow> string list" where
  "issue field r = (case r of None \<Rightarrow> [field] | Some _ \<Rightarrow> [])"

text \<open>
  \<open>ConfigSrcSchema.parse\<close>: the input must be an object; each field of the shape is read
  from it and validated, unknown keys are dropped. The error lists the fields with an issue.
\<close>

definition ConfigSrcSchema_parse :: "json \<Rightarrow> string list + ConfigSrc" where
  "ConfigSrcSchema_parse v =
     (case v of
        JObj kvs \<Rightarrow>
          (let f = zString (map_of kvs ''from'');
               t = zString (map_of kvs ''to'');
               m = zMethod (map_of kvs ''method'');
               fo = zDefault False zCoerceBoolean (map_of kvs ''force'');
               tg = zDefault [''*''] (zArray (zEnum availableTags)) (map_of kvs ''tags'')
           in (case (f, t, m, fo, tg) of
                 (Some f', Some t', Some m', Some fo', Some tg') \<Rightarrow>
                   Inr \<lparr>cfg_from = f', cfg_to = t', cfg_method = m', force = fo', tags = tg'\<rparr>
               | _ \<Rightarrow>
                   Inl (issue ''from'' f @ issue ''to'' t @ issue ''method'' m
                        @ issue ''force'' fo @ issue ''tags'' tg)))
      | _ \<Rightarrow> Inl [''<not an object>''])"

definition zConfigSrc :: "json option \<Rightarrow> ConfigSrc option" where
  "zConfigSrc v =
     (case v of
        None \<Rightarrow> None
      | Some x \<Rightarrow> (case ConfigSrcSchema_parse x of Inl _ \<Rightarrow> None | Inr c \<Rightarrow> Some c))"

definition DotfileManifestSchema_parse ::
  "'w sys \<Rightarrow> json \<Rightarrow> error + string list DotfileManifest" where
  "DotfileManifestSchema_parse S v =
     (case v of
        JObj kvs \<Rightarrow>
          (let n = zString (map_of kvs ''name'');
               d = zOptional zString (map_of kvs ''description'');
               p = zOptional (zCoerceNumber S) (map_of kvs ''priority'');
               b = zOptional zBuilds (map_of kvs ''builds'');
               c = zOptional (zArray zConfigSrc) (map_of kvs ''configs'');
               u = zOptional (zArray zString) (map_of kvs ''cleanup'')
           in (case (n, d, p, b, c, u) of
                 (Some n', Some d', Some p', Some b', Some c', Some u') \<Rightarrow>
                   Inr \<lparr>name = n', description = d', priority = p', builds = b',
                        configs = c', cleanup = u'\<rparr>
               | _ \<Rightarrow>
                   Inl (SchemaError
                         (issue ''name'' n @ issue ''description'' d @ issue ''priority'' p
                          @ issue ''builds'' b @ issue ''configs'' c @ issue ''cleanup'' u))))
      | _ \<Rightarrow> Inl (SchemaError [''<not an object>'']))"

section \<open>Program state: file system, console log, file-system calls made, array store\<close>

text \<open>
  One constructor per \<open>log.*\<close> call of the code, with the values the message is built from.
\<close>

datatype logmsg =
    WarnSkippingComponent string error
  | ErrorComponentsDirNotFound string
  | SkipDestinationExists string
  | InfoForceRemoving string
  | ErrorRemoveFailed string error
  | InfoCopying string string
  | InfoSymlinking linkType string string
  | SuccessOperation string string string
  | ErrorFileOperation string string string error
  | WarnNotAFile string
  | WarnNoMode string
  | InfoMakingExecutable string
  | WarnFileNotFound string
  | ErrorEnsureExecutable string error

datatype fscall =
    Chmod string nat
  | EnsureDir string
  | Remove string
  | CopyTo string string
  | SymlinkTo string string linkType

text \<open>
  \<open>heap\<close> holds the JavaScript arrays of build commands: an array is its index in the
  list, so two names for one array see each other's \<open>push\<close>.
\<close>

record 'w state =
  world :: 'w
  logs :: "logmsg list"
  calls :: "fscall list"
  heap :: "string list list"

definition logged :: "logmsg \<Rightarrow> 'w state \<Rightarrow> 'w state" where
  "logged m st = st\<lparr>logs := logs st @ [m]\<rparr>"

definition called :: "fscall \<Rightarrow> 'w state \<Rightarrow> 'w state" where
  "called c st = st\<lparr>calls := calls st @ [c]\<rparr>"

section \<open>Manifest resolver and component catalog (lib/manifest.ts)\<close>

text \<open>
  In \<open>source ? a : b\<close> on an optional string, \<open>undefined\<close> and the empty string are
  falsy: both take the second branch.
\<close>

definition DEFAULT_COMPONENTS_BASE_PATH :: "'w sys \<Rightarrow> string" where
  "DEFAULT_COMPONENTS_BASE_PATH S = path_resolve S [cwd S, ''components'']"

text \<open>The loop over \<open>manifest.configs\<close>: the first source path that does not exist throws.\<close>

fun checkConfigSources ::
  "'w sys \<Rightarrow> string \<Rightarrow> string \<Rightarrow> ConfigSrc list \<Rightarrow> 'w \<Rightarrow> error + unit" where
  "checkConfigSources S cmpName srcPath [] w = Inr ()"
| "checkConfigSources S cmpName srcPath (config # rest) w =
     (let fullFromPath = path_join S [srcPath, cfg_from config]
      in (case fs_exists S fullFromPath w of
            Inl e \<Rightarrow> Inl e
          | Inr present \<Rightarrow>
              (if present then checkConfigSources S cmpName srcPath rest w
               else Inl (ConfigSourceNotFound (cfg_from config) cmpName fullFromPath))))"

text \<open>The body of the \<open>try\<close> block of \<open>resolveManifest\<close>.\<close>

definition resolveManifest_try ::
  "'w sys \<Rightarrow> string \<Rightarrow> string \<Rightarrow> 'w \<Rightarrow> error + string list DotfileManifest" where
  "resolveManifest_try S cmpName sourcePath w =
     (let componentDir = path_join S [sourcePath, cmpName];
          manifestPath = path_join S [componentDir, ''manifest.jsonc''];
          srcPath = path_join S [componentDir]
      in (case fs_exists S manifestPath w of
            Inl e \<Rightarrow> Inl e
          | Inr present \<Rightarrow>
              (if present then
                 (case fs_readTextFile S manifestPath w of
                    Inl e \<Rightarrow> Inl e
                  | Inr rawManifest \<Rightarrow>
                      (case jsonc_parse S rawManifest of
                         Inl e \<Rightarrow> Inl e
                       | Inr parsedManifest \<Rightarrow>
                           (case DotfileManifestSchema_parse S parsedManifest of
                              Inl e \<Rightarrow> Inl e
                            | Inr manifest \<Rightarrow>
                                (case fs_stat S srcPath w of
                                   Inl _ \<Rightarrow> Inl (MissingSrcDir cmpName srcPath)
                                 | Inr srcStat \<Rightarrow>
                                     (if isDirectory srcStat then
                                        (case (case configs manifest of
                                                 None \<Rightarrow> Inr ()
                                               | Some cs \<Rightarrow>
                                                   checkConfigSources S cmpName srcPath cs w) of
                                           Inl e \<Rightarrow> Inl e
                                         | Inr _ \<Rightarrow> Inr manifest)
                                      else Inl (MissingSrcDir cmpName srcPath))))))
               else Inl (ManifestNotFound manifestPath))))"

definition resolveManifest ::
  "'w sys \<Rightarrow> string \<Rightarrow> string \<Rightarrow> 'w \<Rightarrow> error + string list DotfileManifest" where
  "resolveManifest S cmpName sourcePath w =
     (case resolveManifest_try S cmpName sourcePath w of
        Inl e \<Rightarrow> Inl (ResolveFailed cmpName e)
      | Inr manifest \<Rightarrow> Inr manifest)"

definition getManifest ::
  "'w sys \<Rightarrow> string \<Rightarrow> string \<Rightarrow> 'w state
     \<Rightarrow> string list DotfileManifest option \<times> 'w state" where
  "getManifest S entryName componentsPath st =
     (case resolveManifest S entryName componentsPath (world st) of
        Inr manifest \<Rightarrow> (Some manifest, st)
      | Inl e \<Rightarrow> (None, logged (WarnSkippingComponent entryName e) st))"

text \<open>
  A JavaScript number as far as the comparators need it: a priority is finite, an absent
  one is \<open>Infinity\<close>, and the difference of two numbers can be any of the four.
\<close>

datatype jsnum = Finite rat | PosInfinity | NegInfinity | NaN

definition jsMinus :: "jsnum \<Rightarrow> jsnum \<Rightarrow> jsnum" where
  "jsMinus a b =
     (case (a, b) of
        (Finite x, Finite y) \<Rightarrow> Finite (x - y)
      | (Finite _, PosInfinity) \<Rightarrow> NegInfinity
      | (Finite _, NegInfinity) \<Rightarrow> PosInfinity
      | (PosInfinity, Finite _) \<Rightarrow> PosInfinity
      | (PosInfinity, NegInfinity) \<Rightarrow> PosInfinity
      | (NegInfinity, Finite _) \<Rightarrow> NegInfinity
      | (NegInfinity, PosInfinity) \<Rightarrow> NegInfinity
      | _ \<Rightarrow> NaN)"

definition isPositive :: "jsnum \<Rightarrow> bool" where
  "isPositive v = (case v of Finite x \<Rightarrow> 0 < x | PosInfinity \<Rightarrow> True | _ \<Rightarrow> False)"

definition isNegative :: "jsnum \<Rightarrow> bool" where
  "isNegative v = (case v of Finite x \<Rightarrow> x < 0 | NegInfinity \<Rightarrow> True | _ \<Rightarrow> False)"

text \<open>
  \<open>Array.prototype.sort(comparefn)\<close> is stable, and for a consistent comparator its result
  is the one sorted arrangement that keeps the input order of elements the comparator
  calls equal. Insertion from the right computes that arrangement: an element is put in
  front of the sorted rest, behind the leading elements it compares strictly after. Only
  the sign of the comparator's value is used (NaN counts as zero).
\<close>

fun insertSorted :: "('a \<Rightarrow> 'a \<Rightarrow> jsnum) \<Rightarrow> 'a \<Rightarrow> 'a list \<Rightarrow> 'a list" where
  "insertSorted cmp x [] = [x]"
| "insertSorted cmp x (y # ys) =
     (if isPositive (cmp x y) then y # insertSorted cmp x ys else x # y # ys)"

definition arraySort :: "('a \<Rightarrow> 'a \<Rightarrow> jsnum) \<Rightarrow> 'a list \<Rightarrow> 'a list" where
  "arraySort cmp xs = foldr (insertSorted cmp) xs []"

datatype sortKey = ByPriority | ByName

definition compareByName :: "'w sys \<Rightarrow> 'c DotfileManifest \<Rightarrow> 'c DotfileManifest \<Rightarrow> jsnum" where
  "compareByName S a b = Finite (of_int (localeCompare S (name a) (name b)))"

definition compareByPriority ::
  "'w sys \<Rightarrow> 'c DotfileManifest \<Rightarrow> 'c DotfileManifest \<Rightarrow> jsnum" where
  "compareByPriority S a b =
     (let ap = (case priority a of None \<Rightarrow> PosInfinity | Some x \<Rightarrow> Finite x);
          bp = (case priority b of None \<Rightarrow> PosInfinity | Some x \<Rightarrow> Finite x)
      in if ap \<noteq> bp then jsMinus ap bp
         else Finite (of_int (localeCompare S (name a) (name b))))"

definition sortManifests ::
  "'w sys \<Rightarrow> sortKey \<Rightarrow> 'c DotfileManifest list \<Rightarrow> 'c DotfileManifest list" where
  "sortManifests S sortBy manifests =
     (if sortBy = ByPriority then arraySort (compareByPriority S) manifests
      else arraySort (compareByName S) manifests)"

text \<open>
  The two collecting loops of \<open>getAvailableManifests\<close>. \<open>Deno.readDir\<close> is taken to give
  all entries of the directory or to fail before the first one.
\<close>

fun collectNamed ::
  "'w sys \<Rightarrow> string \<Rightarrow> string list \<Rightarrow> string list DotfileManifest list \<Rightarrow> 'w state
     \<Rightarrow> string list DotfileManifest list \<times> 'w state" where
  "collectNamed S componentsPath [] manifests st = (manifests, st)"
| "collectNamed S componentsPath (cmpName # rest) manifests st =
     (case getManifest S cmpName componentsPath st of
        (Some manifest, st1) \<Rightarrow> collectNamed S componentsPath rest (manifests @ [manifest]) st1
      | (None, st1) \<Rightarrow> collectNamed S componentsPath rest manifests st1)"

fun collectEntries ::
  "'w sys \<Rightarrow> string \<Rightarrow> DirEntry list \<Rightarrow> string list DotfileManifest list \<Rightarrow> 'w state
     \<Rightarrow> string list DotfileManifest list \<times> 'w state" where
  "collectEntries S componentsPath [] manifests st = (manifests, st)"
| "collectEntries S componentsPath (entry # rest) manifests st =
     (if entry_isDirectory entry then
        (case getManifest S (entry_name entry) componentsPath st of
           (Some manifest, st1) \<Rightarrow>
             collectEntries S componentsPath rest (manifests @ [manifest]) st1
         | (None, st1) \<Rightarrow> collectEntries S componentsPath rest manifests st1)
      else collectEntries S componentsPath rest manifests st)"

text \<open>\<open>source ? resolve(source) : DEFAULT_COMPONENTS_BASE_PATH\<close>.\<close>

definition componentsPathOf :: "'w sys \<Rightarrow> string option \<Rightarrow> string" where
  "componentsPathOf S source =
     (case source of
        None \<Rightarrow> DEFAULT_COMPONENTS_BASE_PATH S
      | Some src \<Rightarrow>
          (if src \<noteq> [] then path_resolve S [src] else DEFAULT_COMPONENTS_BASE_PATH S))"

definition getAvailableManifests ::
  "'w sys \<Rightarrow> sortKey \<Rightarrow> string list \<Rightarrow> string option \<Rightarrow> 'w state
     \<Rightarrow> (error + string list DotfileManifest list) \<times> 'w state" where
  "getAvailableManifests S sortBy cmpNames source st =
     (let componentsPath = componentsPathOf S source
      in (case fs_exists S componentsPath (world st) of
            Inl e \<Rightarrow> (Inl e, st)
          | Inr present \<Rightarrow>
              (if present then
                 (if 0 < length cmpNames then
                    (case collectNamed S componentsPath cmpNames [] st of
                       (manifests, st1) \<Rightarrow> (Inr (sortManifests S sortBy manifests), st1))
                  else
                    (case fs_readDir S componentsPath (world st) of
                       Inl e \<Rightarrow> (Inl e, st)
                     | Inr entries \<Rightarrow>
                         (case collectEntries S componentsPath entries [] st of
                            (manifests, st1) \<Rightarrow>
                              (Inr (sortManifests S sortBy manifests), st1))))
               else (Inr [], logged (ErrorComponentsDirNotFound componentsPath) st))))"

section \<open>Selection filter (actions/list.ts, actions/install.ts)\<close>

text \<open>
  Both actions compute \<open>filteredByTags\<close> and \<open>finalList\<close> with the same two
  expressions. \<open>f.tags\<close> and \<open>f.exclude\<close> are optional lists; \<open>xs?.length\<close> is truthy for
  a list that is present and not empty.
\<close>

definition hasLength :: "'a list option \<Rightarrow> bool" where
  "hasLength xs = (case xs of None \<Rightarrow> False | Some l \<Rightarrow> l \<noteq> [])"

definition filteredByTags ::
  "string list option \<Rightarrow> string \<Rightarrow> 'c DotfileManifest list \<Rightarrow> 'c DotfileManifest list" where
  "filteredByTags ftags machineId all =
     (let autoTags = (case ftags of None \<Rightarrow> [machineId, ''*''] | Some ts \<Rightarrow> ts)
      in if hasLength ftags then
           filter (\<lambda>x. case configs x of
                         None \<Rightarrow> False
                       | Some cs \<Rightarrow> list_ex (\<lambda>c. list_ex (\<lambda>t. t \<in> set autoTags) (tags c)) cs)
                  all
         else all)"

definition finalList ::
  "string list option \<Rightarrow> 'c DotfileManifest list \<Rightarrow> 'c DotfileManifest list" where
  "finalList fexclude filtered =
     (if hasLength fexclude then
        filter (\<lambda>x. \<not> (case fexclude of None \<Rightarrow> False | Some ex \<Rightarrow> name x \<in> set ex)) filtered
      else filtered)"

definition selectComponents ::
  "string list option \<Rightarrow> string list option \<Rightarrow> string \<Rightarrow> 'c DotfileManifest list
     \<Rightarrow> 'c DotfileManifest list" where
  "selectComponents ftags fexclude machineId all =
     finalList fexclude (filteredByTags ftags machineId all)"

section \<open>Build-command resolver (actions/install.ts, lib/shell.ts)\<close>

definition isExecutable :: "nat \<Rightarrow> bool" where
  "isExecutable m = (and m 73 \<noteq> 0)"

text \<open>
  \<open>ensureExecutable\<close>: the \<open>try\<close> block, then the \<open>catch\<close> that turns \<open>NotFound\<close>
  into \<open>false\<close> and rethrows everything else. 493 is \<open>0o755\<close>, 73 is \<open>0o111\<close>.
\<close>

definition ensureExecutable_try ::
  "'w sys \<Rightarrow> string \<Rightarrow> 'w state \<Rightarrow> (error + bool) \<times> 'w state" where
  "ensureExecutable_try S p st =
     (case fs_lstat S p (world st) of
        Inl e \<Rightarrow> (Inl e, st)
      | Inr stat \<Rightarrow>
          (if isFile stat then
             (case mode stat of
                None \<Rightarrow> (Inr False, logged (WarnNoMode p) st)
              | Some m \<Rightarrow>
                  (if isExecutable m then (Inr True, st)
                   else
                     (let st1 = called (Chmod p 493) (logged (InfoMakingExecutable p) st)
                      in (case fs_chmod S p 493 (world st1) of
                            Inl e \<Rightarrow> (Inl e, st1)
                          | Inr w \<Rightarrow>
                              (case fs_lstat S p w of
                                 Inl e \<Rightarrow> (Inl e, st1\<lparr>world := w\<rparr>)
                               | Inr newStat \<Rightarrow>
                                   (Inr (case mode newStat of
                                           None \<Rightarrow> False
                                         | Some m' \<Rightarrow> isExecutable m'),
                                    st1\<lparr>world := w\<rparr>))))))
           else (Inr False, logged (WarnNotAFile p) st)))"

definition ensureExecutable ::
  "'w sys \<Rightarrow> string \<Rightarrow> 'w state \<Rightarrow> (error + bool) \<times> 'w state" where
  "ensureExecutable S p st =
     (case ensureExecutable_try S p st of
        (Inr b, st1) \<Rightarrow> (Inr b, st1)
      | (Inl (NotFound x), st1) \<Rightarrow> (Inr False, logged (WarnFileNotFound p) st1)
      | (Inl e, st1) \<Rightarrow> (Inl e, logged (ErrorEnsureExecutable p e) st1))"

text \<open>
  \<open>commands\<close> holds whatever \<open>man.builds[machineId] || man.builds["*"] || []\<close> yields.
  A property read on the plain object \<open>man.builds\<close> finds an own property, whose value is
  an array (\<open>Arr\<close>, by its address), or else a member every object inherits from
  \<open>Object.prototype\<close> (\<open>Inherited\<close>: a function or an object, truthy and not an
  array), or else \<open>undefined\<close> (\<open>None\<close>). Every array is truthy, an empty one too.
\<close>

datatype cmdval = Arr nat | Inherited string

definition objectPrototypeNames :: "string list" where
  "objectPrototypeNames =
     [''constructor'', ''hasOwnProperty'', ''isPrototypeOf'', ''propertyIsEnumerable'',
      ''toLocaleString'', ''toString'', ''valueOf'', ''__proto__'',
      ''__defineGetter__'', ''__defineSetter__'', ''__lookupGetter__'', ''__lookupSetter__'']"

definition getProperty :: "(string \<times> nat) list option \<Rightarrow> string \<Rightarrow> cmdval option" where
  "getProperty obj k =
     (case obj of
        None \<Rightarrow> None
      | Some props \<Rightarrow>
          (case map_of props k of
             Some a \<Rightarrow> Some (Arr a)
           | None \<Rightarrow> (if k \<in> set objectPrototypeNames then Some (Inherited k) else None)))"

definition initialCommands ::
  "string \<Rightarrow> nat DotfileManifest \<Rightarrow> 'w state \<Rightarrow> cmdval \<times> 'w state" where
  "initialCommands machineId man st =
     (case getProperty (builds man) machineId of
        Some v \<Rightarrow> (v, st)
      | None \<Rightarrow>
          (case getProperty (builds man) ''*'' of
             Some v \<Rightarrow> (v, st)
           | None \<Rightarrow> (Arr (length (heap st)), st\<lparr>heap := heap st @ [[]]\<rparr>)))"

text \<open>\<open>commands.push(x)\<close>: appends in place to the array \<open>commands\<close> refers to.\<close>

definition push :: "cmdval \<Rightarrow> string \<Rightarrow> 'w state \<Rightarrow> (error + unit) \<times> 'w state" where
  "push commands x st =
     (case commands of
        Arr a \<Rightarrow> (Inr (), st\<lparr>heap := (heap st)[a := heap st ! a @ [x]]\<rparr>)
      | Inherited k \<Rightarrow> (Inl (TypeError ''commands.push is not a function''), st))"

text \<open>\<open>entry.name.split(".")[0]\<close>: the name up to its first dot.\<close>

definition firstDotPart :: "string \<Rightarrow> string" where
  "firstDotPart s = takeWhile (\<lambda>c. c \<noteq> CHR ''.'') s"

definition bashCommand :: "string \<Rightarrow> string" where
  "bashCommand filePath = ''bash -c '' @ [CHR 0x22] @ filePath @ [CHR 0x22]"

text \<open>The loop over the entries of the component's \<open>builds\<close> directory.\<close>

fun scanBuildScripts ::
  "'w sys \<Rightarrow> string \<Rightarrow> string \<Rightarrow> cmdval \<Rightarrow> DirEntry list \<Rightarrow> 'w state
     \<Rightarrow> (error + cmdval) \<times> 'w state" where
  "scanBuildScripts S machineId fullPath commands [] st = (Inr commands, st)"
| "scanBuildScripts S machineId fullPath commands (entry # rest) st =
     (let matched = (firstDotPart (entry_name entry) = machineId)
      in if entry_isFile entry \<and> matched then
           (let filePath = fullPath @ ''/'' @ entry_name entry
            in (case ensureExecutable S filePath st of
                  (Inl e, st1) \<Rightarrow> (Inl e, st1)
                | (Inr _, st1) \<Rightarrow>
                    (case push commands (bashCommand filePath) st1 of
                       (Inl e, st2) \<Rightarrow> (Inl e, st2)
                     | (Inr _, st2) \<Rightarrow>
                         scanBuildScripts S machineId fullPath commands rest st2)))
         else scanBuildScripts S machineId fullPath commands rest st)"

text \<open>
  \<open>source ? join(source, man.name, "builds") : join("./components", man.name, "builds")\<close>.
\<close>

definition buildsDirOf :: "'w sys \<Rightarrow> 'c DotfileManifest \<Rightarrow> string option \<Rightarrow> string" where
  "buildsDirOf S man source =
     (case source of
        None \<Rightarrow> path_join S [''./components'', name man, ''builds'']
      | Some src \<Rightarrow>
          (if src \<noteq> [] then path_join S [src, name man, ''builds'']
           else path_join S [''./components'', name man, ''builds'']))"

definition getComponentBuilds ::
  "'w sys \<Rightarrow> string \<Rightarrow> nat DotfileManifest \<Rightarrow> string option \<Rightarrow> 'w state
     \<Rightarrow> (error + cmdval) \<times> 'w state" where
  "getComponentBuilds S machineId man source st =
     (case initialCommands machineId man st of
        (commands, st0) \<Rightarrow>
          (let buildsDir = buildsDirOf S man source
           in (case resolveHomePath S buildsDir of
                 Inl e \<Rightarrow> (Inl e, st0)
               | Inr fullPath \<Rightarrow>
                   (case fs_exists S fullPath (world st0) of
                      Inl e \<Rightarrow> (Inl e, st0)
                    | Inr present \<Rightarrow>
                        (if present then
                           (case fs_readDir S fullPath (world st0) of
                              Inl e \<Rightarrow> (Inl e, st0)
                            | Inr entries \<Rightarrow>
                                scanBuildScripts S machineId fullPath commands entries st0)
                         else (Inr commands, st0))))))"

text \<open>
  Reading through the store: the array at an address, and the manifest as a value, each
  build list read at its address.
\<close>

definition readArray :: "string list list \<Rightarrow> nat \<Rightarrow> string list" where
  "readArray h a = (if a < length h then h ! a else [])"

definition manifestValue :: "string list list \<Rightarrow> nat DotfileManifest \<Rightarrow> string list DotfileManifest" where
  "manifestValue h man =
     \<lparr>name = name man, description = description man, priority = priority man,
      builds = map_option (map (\<lambda>kv. (fst kv, readArray h (snd kv)))) (builds man),
      configs = configs man, cleanup = cleanup man\<rparr>"

text \<open>
  A manifest as the validator leaves it in memory: every build list is an array of its own.
\<close>

fun allocBuilds ::
  "(string \<times> string list) list \<Rightarrow> string list list \<Rightarrow> (string \<times> nat) list \<times> string list list" where
  "allocBuilds [] h = ([], h)"
| "allocBuilds ((k, cmds) # rest) h =
     (case allocBuilds rest (h @ [cmds]) of
        (refs, h') \<Rightarrow> ((k, length h) # refs, h'))"

definition allocManifest ::
  "string list DotfileManifest \<Rightarrow> string list list \<Rightarrow> nat DotfileManifest \<times> string list list" where
  "allocManifest man h =
     (case builds man of
        None \<Rightarrow>
          (\<lparr>name = name man, description = description man, priority = priority man,
            builds = None, configs = configs man, cleanup = cleanup man\<rparr>, h)
      | Some b \<Rightarrow>
          (case allocBuilds b h of
             (refs, h') \<Rightarrow>
               (\<lparr>name = name man, description = description man, priority = priority man,
                 builds = Some refs, configs = configs man, cleanup = cleanup man\<rparr>, h')))"

section \<open>File placement (lib/fs.ts)\<close>

definition getResolvedConfigPaths ::
  "'w sys \<Rightarrow> string \<Rightarrow> string \<Rightarrow> ConfigSrc \<Rightarrow> error + string \<times> string" where
  "getResolvedConfigPaths S sourcePath cmpName entry =
     (let from = path_resolve S [sourcePath, cmpName, cfg_from entry]
      in (case resolveHomePath S (cfg_to entry) of
            Inl e \<Rightarrow> Inl e
          | Inr to \<Rightarrow> Inr (from, to)))"

text \<open>
  Lines 76 to 92 of \<open>performFileOperation\<close>: \<open>Inr False\<close> is the early \<open>return\<close> of the
  skip, \<open>Inr True\<close> goes on to place the file. \<open>Deno.lstat(to).catch(() => null)\<close> reads
  every failure as an absent destination.
\<close>

definition checkDestination ::
  "'w sys \<Rightarrow> string \<Rightarrow> bool \<Rightarrow> 'w state \<Rightarrow> (error + bool) \<times> 'w state" where
  "checkDestination S to isForced st =
     (case fs_lstat S to (world st) of
        Inl _ \<Rightarrow> (Inr True, st)
      | Inr destExists \<Rightarrow>
          (if isForced then
             (let st1 = called (Remove to) (logged (InfoForceRemoving to) st)
              in (case fs_remove S to (world st1) of
                    Inl e \<Rightarrow> (Inl e, logged (ErrorRemoveFailed to e) st1)
                  | Inr w \<Rightarrow> (Inr True, st1\<lparr>world := w\<rparr>)))
           else (Inr False, logged (SkipDestinationExists to) st)))"

definition placeFile ::
  "'w sys \<Rightarrow> string \<Rightarrow> string \<Rightarrow> string \<Rightarrow> ConfigSrc \<Rightarrow> FileInfo \<Rightarrow> 'w state
     \<Rightarrow> (error + unit) \<times> 'w state" where
  "placeFile S cmpName from to entry sourceStat st =
     (if cfg_method entry = Copy then
        (let st1 = called (CopyTo from to) (logged (InfoCopying from to) st)
         in (case fs_copy S from to (world st1) of
               Inl e \<Rightarrow> (Inl e, st1)
             | Inr w \<Rightarrow> (Inr (), logged (SuccessOperation cmpName from to) (st1\<lparr>world := w\<rparr>))))
      else
        (let sourceType = (if isDirectory sourceStat then LinkDir else LinkFile);
             st1 = called (SymlinkTo from to sourceType)
                     (logged (InfoSymlinking sourceType from to) st)
         in (case fs_symlink S from to sourceType (world st1) of
               Inl e \<Rightarrow> (Inl e, st1)
             | Inr w \<Rightarrow> (Inr (), logged (SuccessOperation cmpName from to) (st1\<lparr>world := w\<rparr>)))))"

definition performFileOperation_try ::
  "'w sys \<Rightarrow> string \<Rightarrow> string \<Rightarrow> string \<Rightarrow> ConfigSrc \<Rightarrow> bool \<Rightarrow> 'w state
     \<Rightarrow> (error + unit) \<times> 'w state" where
  "performFileOperation_try S cmpName from to entry frc st =
     (case fs_stat S from (world st) of
        Inl e \<Rightarrow> (Inl e, st)
      | Inr sourceStat \<Rightarrow>
          (let destDir = url_parent S to;
               st1 = called (EnsureDir destDir) st
           in (case fs_ensureDir S destDir (world st1) of
                 Inl e \<Rightarrow> (Inl e, st1)
               | Inr w \<Rightarrow>
                   (let isForced = (frc \<or> force entry)
                    in (case checkDestination S to isForced (st1\<lparr>world := w\<rparr>) of
                          (Inl e, st2) \<Rightarrow> (Inl e, st2)
                        | (Inr proceed, st2) \<Rightarrow>
                            (if proceed then placeFile S cmpName from to entry sourceStat st2
                             else (Inr (), st2)))))))"

definition performFileOperation ::
  "'w sys \<Rightarrow> string \<Rightarrow> string \<Rightarrow> ConfigSrc \<Rightarrow> bool \<Rightarrow> 'w state
     \<Rightarrow> (error + unit) \<times> 'w state" where
  "performFileOperation S sourcePath cmpName entry frc st =
     (case getResolvedConfigPaths S sourcePath cmpName entry of
        Inl e \<Rightarrow> (Inl e, st)
      | Inr (from, to) \<Rightarrow>
          (case performFileOperation_try S cmpName from to entry frc st of
             (Inl e, st1) \<Rightarrow> (Inl e, logged (ErrorFileOperation cmpName from to e) st1)
           | (Inr u, st1) \<Rightarrow> (Inr u, st1)))"

section \<open>An instance of the capabilities: POSIX paths and a file system in memory\<close>

text \<open>
  For runs on concrete inputs. Paths follow \<open>@std/path\<close> on POSIX: \<open>resolve\<close> joins its
  arguments from the right until one is absolute (the working directory last) and
  normalizes; \<open>join\<close> joins the non-empty arguments with a slash and normalizes.
\<close>

fun splitOn :: "char \<Rightarrow> string \<Rightarrow> string list" where
  "splitOn sep [] = [[]]"
| "splitOn sep (c # cs) =
     (if c = sep then [] # splitOn sep cs
      else (case splitOn sep cs of
              [] \<Rightarrow> [[c]]
            | seg # segs \<Rightarrow> (c # seg) # segs))"

fun joinWith :: "string \<Rightarrow> string list \<Rightarrow> string" where
  "joinWith sep [] = []"
| "joinWith sep [x] = x"
| "joinWith sep (x # y # rest) = x @ sep @ joinWith sep (y # rest)"

text \<open>\<open>normalizeSegments allowUp kept segs\<close>: \<open>kept\<close> holds the segments kept so far, last first.\<close>

fun normalizeSegments :: "bool \<Rightarrow> string list \<Rightarrow> string list \<Rightarrow> string list" where
  "normalizeSegments allowUp kept [] = rev kept"
| "normalizeSegments allowUp kept (seg # rest) =
     (if seg = [] \<or> seg = ''.'' then normalizeSegments allowUp kept rest
      else if seg = ''..'' then
        (case kept of
           [] \<Rightarrow> normalizeSegments allowUp (if allowUp then [''..''] else []) rest
         | k # ks \<Rightarrow>
             (if k = ''..'' then normalizeSegments allowUp (''..'' # kept) rest
              else normalizeSegments allowUp ks rest))
      else normalizeSegments allowUp (seg # kept) rest)"

definition normalizeString :: "string \<Rightarrow> bool \<Rightarrow> string" where
  "normalizeString p allowUp = joinWith ''/'' (normalizeSegments allowUp [] (splitOn CHR ''/'' p))"

definition isAbsolutePath :: "string \<Rightarrow> bool" where
  "isAbsolutePath p = startsWith p ''/''"

definition posix_normalize :: "string \<Rightarrow> string" where
  "posix_normalize p =
     (if p = [] then ''.''
      else
        (let absolute = isAbsolutePath p;
             trailing = (last p = CHR ''/'');
             n = normalizeString p (\<not> absolute);
             n1 = (if n = [] \<and> \<not> absolute then ''.'' else n);
             n2 = (if n1 \<noteq> [] \<and> trailing then n1 @ ''/'' else n1)
         in if absolute then ''/'' @ n2 else n2))"

definition posix_join :: "string list \<Rightarrow> string" where
  "posix_join paths =
     (let joined = joinWith ''/'' (filter (\<lambda>p. p \<noteq> []) paths)
      in if joined = [] then ''.'' else posix_normalize joined)"

text \<open>\<open>resolveFrom acc paths\<close> walks the arguments last first, \<open>paths\<close> being them reversed
  with the working directory at the end.\<close>

fun resolveFrom :: "string \<Rightarrow> string list \<Rightarrow> string \<times> bool" where
  "resolveFrom acc [] = (acc, False)"
| "resolveFrom acc (p # rest) =
     (if p = [] then resolveFrom acc rest
      else if isAbsolutePath p then (p @ ''/'' @ acc, True)
      else resolveFrom (p @ ''/'' @ acc) rest)"

definition posix_resolve :: "string \<Rightarrow> string list \<Rightarrow> string" where
  "posix_resolve workdir paths =
     (case resolveFrom [] (rev paths @ [workdir]) of
        (resolvedPath, resolvedAbsolute) \<Rightarrow>
          (let n = normalizeString resolvedPath (\<not> resolvedAbsolute)
           in if resolvedAbsolute then ''/'' @ n
              else if n = [] then ''.'' else n))"

text \<open>The directory part of a path, with its final slash: what
  \<open>new URL(".", `file://${to}`).pathname\<close> is for a path without characters a URL escapes.\<close>

definition plainUrlParent :: "string \<Rightarrow> string" where
  "plainUrlParent p = rev (dropWhile (\<lambda>c. c \<noteq> CHR ''/'') (rev p))"

text \<open>
  \<open>String.prototype.localeCompare\<close> compares by the collation of the locale. This is
  the root collation of Unicode (CLDR), which it applies for English, on ASCII strings:
  control characters are ignored; the other characters are compared first by their primary
  weights, where white space comes before punctuation, punctuation before symbols, symbols
  before digits, digits before letters, and a letter has one weight in both cases; strings
  with the same primary weights are then compared by case, lower case first. The result is
  -1, 0 or 1. (A byte above 127 is outside what is modelled; it is put behind the letters.)
\<close>

definition ignorable :: "char \<Rightarrow> bool" where
  "ignorable c =
     (let n = (of_char c :: nat) in n < 9 \<or> (13 < n \<and> n < 32) \<or> n = 127)"

definition isUpper :: "char \<Rightarrow> bool" where
  "isUpper c = (65 \<le> (of_char c :: nat) \<and> (of_char c :: nat) \<le> 90)"

definition toLower :: "char \<Rightarrow> char" where
  "toLower c = (if isUpper c then char_of ((of_char c :: nat) + 32) else c)"

definition collationOrder :: string where
  "collationOrder =
     [CHR 0x09, CHR 0x0A, CHR 0x0B, CHR 0x0C, CHR 0x0D, CHR 0x20]
     @ ''_-,;:!?.'' @ [CHR 0x27, CHR 0x22] @ ''()[]{}@*/'' @ [CHR 0x5C] @ ''&#%''
     @ [CHR 0x60] @ ''^+<=>|~$'' @ ''0123456789'' @ ''abcdefghijklmnopqrstuvwxyz''"

fun indexOf :: "'a \<Rightarrow> 'a list \<Rightarrow> nat" where
  "indexOf x [] = 0"
| "indexOf x (y # ys) = (if x = y then 0 else Suc (indexOf x ys))"

definition primaryWeight :: "char \<Rightarrow> nat" where
  "primaryWeight c =
     (if toLower c \<in> set collationOrder then indexOf (toLower c) collationOrder
      else length collationOrder + of_char c)"

definition tertiaryWeight :: "char \<Rightarrow> nat" where
  "tertiaryWeight c = (if isUpper c then 1 else 0)"

definition primaryKey :: "string \<Rightarrow> nat list" where
  "primaryKey s = map primaryWeight (filter (\<lambda>c. \<not> ignorable c) s)"

definition tertiaryKey :: "string \<Rightarrow> nat list" where
  "tertiaryKey s = map tertiaryWeight (filter (\<lambda>c. \<not> ignorable c) s)"

fun compareWeights :: "nat list \<Rightarrow> nat list \<Rightarrow> int" where
  "compareWeights [] [] = 0"
| "compareWeights [] (y # ys) = - 1"
| "compareWeights (x # xs) [] = 1"
| "compareWeights (x # xs) (y # ys) =
     (if x < y then - 1 else if y < x then 1 else compareWeights xs ys)"

definition rootCollate :: "string \<Rightarrow> string \<Rightarrow> int" where
  "rootCollate a b =
     (let p = compareWeights (primaryKey a) (primaryKey b)
      in if p \<noteq> 0 then p else compareWeights (tertiaryKey a) (tertiaryKey b))"

datatype node = FileNode nat string | DirNode | LinkNode string

type_synonym memfs = "(string \<times> node) list"

definition nodeInfo :: "node \<Rightarrow> FileInfo" where
  "nodeInfo n =
     (case n of
        FileNode m _ \<Rightarrow> \<lparr>isFile = True, isDirectory = False, isSymlink = False, mode = Some m\<rparr>
      | DirNode \<Rightarrow> \<lparr>isFile = False, isDirectory = True, isSymlink = False, mode = Some 493\<rparr>
      | LinkNode _ \<Rightarrow> \<lparr>isFile = False, isDirectory = False, isSymlink = True, mode = Some 511\<rparr>)"

definition mem_lstat :: "string \<Rightarrow> memfs \<Rightarrow> error + FileInfo" where
  "mem_lstat p fs = (case map_of fs p of None \<Rightarrow> Inl (NotFound p) | Some n \<Rightarrow> Inr (nodeInfo n))"

definition mem_stat :: "string \<Rightarrow> memfs \<Rightarrow> error + FileInfo" where
  "mem_stat p fs =
     (case map_of fs p of
        None \<Rightarrow> Inl (NotFound p)
      | Some (LinkNode t) \<Rightarrow>
          (case map_of fs t of
             None \<Rightarrow> Inl (NotFound p)
           | Some (LinkNode _) \<Rightarrow> Inl (OsFailure ''too many links'')
           | Some n \<Rightarrow> Inr (nodeInfo n))
      | Some n \<Rightarrow> Inr (nodeInfo n))"

definition mem_exists :: "string \<Rightarrow> memfs \<Rightarrow> error + bool" where
  "mem_exists p fs =
     (case mem_stat p fs of
        Inr _ \<Rightarrow> Inr True
      | Inl (NotFound _) \<Rightarrow> Inr False
      | Inl e \<Rightarrow> Inl e)"

definition childName :: "string \<Rightarrow> string \<Rightarrow> string option" where
  "childName dir p =
     (let pre = dir @ ''/''; rest = drop (length pre) p
      in if startsWith p pre \<and> rest \<noteq> [] \<and> CHR ''/'' \<notin> set rest then Some rest else None)"

definition dirEntryOf :: "string \<Rightarrow> string \<times> node \<Rightarrow> DirEntry option" where
  "dirEntryOf dir pn =
     (case childName dir (fst pn) of
        None \<Rightarrow> None
      | Some nm \<Rightarrow>
          Some \<lparr>entry_name = nm, entry_isFile = isFile (nodeInfo (snd pn)),
                entry_isDirectory = isDirectory (nodeInfo (snd pn))\<rparr>)"

definition mem_readDir :: "string \<Rightarrow> memfs \<Rightarrow> error + DirEntry list" where
  "mem_readDir p fs =
     (case map_of fs p of
        Some DirNode \<Rightarrow> Inr (List.map_filter (dirEntryOf p) fs)
      | Some _ \<Rightarrow> Inl (OsFailure ''not a directory'')
      | None \<Rightarrow> Inl (NotFound p))"

definition mem_readTextFile :: "string \<Rightarrow> memfs \<Rightarrow> error + string" where
  "mem_readTextFile p fs =
     (case map_of fs p of
        Some (FileNode _ text) \<Rightarrow> Inr text
      | Some _ \<Rightarrow> Inl (OsFailure ''not a file'')
      | None \<Rightarrow> Inl (NotFound p))"

definition mem_chmod :: "string \<Rightarrow> nat \<Rightarrow> memfs \<Rightarrow> error + memfs" where
  "mem_chmod p m fs =
     (case map_of fs p of
        Some (FileNode _ text) \<Rightarrow> Inr ((p, FileNode m text) # fs)
      | Some _ \<Rightarrow> Inr fs
      | None \<Rightarrow> Inl (NotFound p))"

definition stripTrailingSlash :: "string \<Rightarrow> string" where
  "stripTrailingSlash p = (if 1 < length p \<and> last p = CHR ''/'' then butlast p else p)"

definition mem_ensureDir :: "string \<Rightarrow> memfs \<Rightarrow> error + memfs" where
  "mem_ensureDir d fs =
     (case map_of fs (stripTrailingSlash d) of
        Some DirNode \<Rightarrow> Inr fs
      | Some _ \<Rightarrow> Inl (OsFailure ''exists and is not a directory'')
      | None \<Rightarrow> Inr ((stripTrailingSlash d, DirNode) # fs))"

definition mem_remove :: "string \<Rightarrow> memfs \<Rightarrow> error + memfs" where
  "mem_remove p fs =
     (case map_of fs p of
        None \<Rightarrow> Inl (NotFound p)
      | Some _ \<Rightarrow> Inr (filter (\<lambda>qn. fst qn \<noteq> p \<and> \<not> startsWith (fst qn) (p @ ''/'')) fs))"

definition mem_copy :: "string \<Rightarrow> string \<Rightarrow> memfs \<Rightarrow> error + memfs" where
  "mem_copy src dst fs =
     (case map_of fs src of
        None \<Rightarrow> Inl (NotFound src)
      | Some n \<Rightarrow> Inr ((dst, n) # fs))"

definition mem_symlink :: "string \<Rightarrow> string \<Rightarrow> linkType \<Rightarrow> memfs \<Rightarrow> error + memfs" where
  "mem_symlink src dst t fs =
     (case map_of fs dst of
        Some _ \<Rightarrow> Inl (OsFailure ''already exists'')
      | None \<Rightarrow> Inr ((dst, LinkNode src) # fs))"

text \<open>
  \<open>mem_sys home workdir documents\<close>: the environment's HOME, the working directory, and the
  JSONC texts the parser knows, each with the value it parses to.
\<close>

definition mem_sys :: "string option \<Rightarrow> string \<Rightarrow> (string \<times> json) list \<Rightarrow> memfs sys" where
  "mem_sys home workdir documents =
     \<lparr>env_HOME = home,
      cwd = workdir,
      path_resolve = posix_resolve workdir,
      path_join = posix_join,
      url_parent = plainUrlParent,
      localeCompare = rootCollate,
      jsNumber = (\<lambda>_. None),
      jsonc_parse = (\<lambda>text. case map_of documents text of
                                None \<Rightarrow> Inl (SyntaxError text)
                              | Some doc \<Rightarrow> Inr doc),
      fs_exists = mem_exists,
      fs_stat = mem_stat,
      fs_lstat = mem_lstat,
      fs_readDir = mem_readDir,
      fs_readTextFile = mem_readTextFile,
      fs_chmod = mem_chmod,
      fs_ensureDir = mem_ensureDir,
      fs_remove = mem_remove,
      fs_copy = mem_copy,
      fs_symlink = mem_symlink\<rparr>"

definition initialState :: "'w \<Rightarrow> 'w state" where
  "initialState w = \<lparr>world = w, logs = [], calls = [], heap = []\<rparr>"

section \<open>The catalog order in the specification's words\<close>

text \<open>
  Ascending priority, an absent priority counting as infinitely large; equal priorities
  (both absent included) are ordered by name, the order of names being the one
  \<open>localeCompare\<close> gives. \<open>name\<close> mode uses the names alone. \<open>spec_catalogOrder\<close>
  is the order of the chosen mode.
\<close>

definition priorityBefore :: "rat option \<Rightarrow> rat option \<Rightarrow> bool" where
  "priorityBefore p q =
     (case (p, q) of (Some x, Some y) \<Rightarrow> x < y | (Some _, None) \<Rightarrow> True | _ \<Rightarrow> False)"

definition spec_priorityOrder ::
  "'w sys \<Rightarrow> 'c DotfileManifest \<Rightarrow> 'c DotfileManifest \<Rightarrow> bool" where
  "spec_priorityOrder S a b =
     (priorityBefore (priority a) (priority b)
      \<or> (priority a = priority b \<and> localeCompare S (name a) (name b) \<le> 0))"

definition spec_nameOrder ::
  "'w sys \<Rightarrow> 'c DotfileManifest \<Rightarrow> 'c DotfileManifest \<Rightarrow> bool" where
  "spec_nameOrder S a b = (localeCompare S (name a) (name b) \<le> 0)"

definition spec_catalogOrder ::
  "'w sys \<Rightarrow> sortKey \<Rightarrow> 'c DotfileManifest \<Rightarrow> 'c DotfileManifest \<Rightarrow> bool" where
  "spec_catalogOrder S sortBy =
     (if sortBy = ByPriority then spec_priorityOrder S else spec_nameOrder S)"

text \<open>
  Case-sensitive lexicographic order of names, as the claim about the sort words it:
  the strings are compared code unit by code unit, and no two different strings tie.
\<close>

fun compareUnits :: "string \<Rightarrow> string \<Rightarrow> int" where
  "compareUnits [] [] = 0"
| "compareUnits [] (y # ys) = - 1"
| "compareUnits (x # xs) [] = 1"
| "compareUnits (x # xs) (y # ys) =
     (if (of_char x :: nat) < of_char y then - 1
      else if (of_char y :: nat) < of_char x then 1
      else compareUnits xs ys)"

text \<open>
  What \<open>Array.prototype.sort\<close> asks of a comparator, for \<open>localeCompare\<close>: swapping the
  arguments swaps the sign, and "not after" is transitive.
\<close>

definition consistentComparator :: "(string \<Rightarrow> string \<Rightarrow> int) \<Rightarrow> bool" where
  "consistentComparator lc =
     ((\<forall>x y. (lc x y < 0) = (0 < lc y x))
      \<and> (\<forall>x y z. lc x y \<le> 0 \<and> lc y z \<le> 0 \<longrightarrow> lc x z \<le> 0))"

text \<open>The sort takes two elements as equal when the comparator's value is neither
  positive nor negative.\<close>

definition comparesEqual :: "jsnum \<Rightarrow> bool" where
  "comparesEqual v = (\<not> isPositive v \<and> \<not> isNegative v)"

section \<open>The catalog's result in the specification's words\<close>

text \<open>
  The components of a list of names whose own resolution succeeds, one for every
  occurrence of a name and in the order of the names; the warnings for the occurrences
  whose resolution fails; and the names the catalog tries when it is given none: the
  directories directly under the source root.
\<close>

definition resolvedManifests ::
  "'w sys \<Rightarrow> string \<Rightarrow> 'w \<Rightarrow> string list \<Rightarrow> string list DotfileManifest list" where
  "resolvedManifests S componentsPath w names =
     List.map_filter
       (\<lambda>n. case resolveManifest S n componentsPath w of Inl _ \<Rightarrow> None | Inr m \<Rightarrow> Some m)
       names"

definition skipWarnings :: "'w sys \<Rightarrow> string \<Rightarrow> 'w \<Rightarrow> string list \<Rightarrow> logmsg list" where
  "skipWarnings S componentsPath w names =
     List.map_filter
       (\<lambda>n. case resolveManifest S n componentsPath w of
               Inl e \<Rightarrow> Some (WarnSkippingComponent n e)
             | Inr _ \<Rightarrow> None)
       names"

definition directoryNames :: "DirEntry list \<Rightarrow> string list" where
  "directoryNames entries = map entry_name (filter entry_isDirectory entries)"

section \<open>The starting command list in the specification's words\<close>


section \<open>Concrete inputs\<close>

definition component :: "string \<Rightarrow> rat option \<Rightarrow> string list DotfileManifest" where
  "component n p =
     \<lparr>name = n, description = None, priority = p, builds = None, configs = None,
      cleanup = None\<rparr>"

definition sortDemo :: "string list DotfileManifest list" where
  "sortDemo =
     [component ''shell'' None, component ''zsh'' (Some 5), component ''git'' (Some 0),
      component ''Kitty'' (Some 5)]"

definition gitDocument :: json where
  "gitDocument =
     JObj [(''name'', JStr ''git''),
           (''configs'',
            JArr [JObj [(''from'', JStr ''gitconfig''), (''to'', JStr ''~/.gitconfig''),
                        (''method'', JStr ''symlink'')]])]"

definition gitManifest :: "string list DotfileManifest" where
  "gitManifest =
     \<lparr>name = ''git'', description = None, priority = None, builds = None,
      configs = Some [\<lparr>cfg_from = ''gitconfig'', cfg_to = ''~/.gitconfig'',
                       cfg_method = Symlink, force = False, tags = [''*'']\<rparr>],
      cleanup = None\<rparr>"

definition brokenDocument :: json where
  "brokenDocument =
     JObj [(''name'', JStr ''broken''),
           (''configs'',
            JArr [JObj [(''from'', JStr ''missing''), (''to'', JStr ''~/.broken''),
                        (''method'', JStr ''copy'')]])]"

text \<open>
  A source root \<open>/src\<close> with the component \<open>git\<close>, whose payload \<open>gitconfig\<close> exists,
  and the component \<open>broken\<close>, whose manifest names a payload that does not exist. The
  parser is given the two manifest texts.
\<close>

definition demoDocuments :: "(string \<times> json) list" where
  "demoDocuments = [(''{git}'', gitDocument), (''{broken}'', brokenDocument)]"

definition demoFs :: memfs where
  "demoFs =
     [(''/src'', DirNode),
      (''/src/git'', DirNode),
      (''/src/git/manifest.jsonc'', FileNode 420 ''{git}''),
      (''/src/git/gitconfig'', FileNode 420 ''[user]''),
      (''/src/broken'', DirNode),
      (''/src/broken/manifest.jsonc'', FileNode 420 ''{broken}''),
      (''/home/u'', DirNode)]"

definition demoSys :: "memfs sys" where
  "demoSys = mem_sys (Some ''/home/u'') ''/work'' demoDocuments"

text \<open>
  A source root \<open>/dots\<close> whose directory lists \<open>git\<close> (no priority), \<open>broken\<close>
  (a payload that does not exist) and \<open>zsh\<close> (priority 5), in this order.
\<close>

definition zshDocument :: json where
  "zshDocument = JObj [(''name'', JStr ''zsh''), (''priority'', JNum 5)]"

definition zshManifest :: "string list DotfileManifest" where
  "zshManifest = component ''zsh'' (Some 5)"

definition catalogFs :: memfs where
  "catalogFs =
     [(''/dots'', DirNode),
      (''/dots/git'', DirNode),
      (''/dots/git/manifest.jsonc'', FileNode 420 ''{git}''),
      (''/dots/git/gitconfig'', FileNode 420 ''[user]''),
      (''/dots/broken'', DirNode),
      (''/dots/broken/manifest.jsonc'', FileNode 420 ''{broken}''),
      (''/dots/zsh'', DirNode),
      (''/dots/zsh/manifest.jsonc'', FileNode 420 ''{zsh}'')]"

definition catalogSys :: "memfs sys" where
  "catalogSys =
     mem_sys (Some ''/home/u'') ''/work''
       [(''{git}'', gitDocument), (''{broken}'', brokenDocument), (''{zsh}'', zshDocument)]"

text \<open>
  The manifest of the specification's example, \<open>builds = {"fedora": ["a"], "*": ["b"]}\<close>,
  as a value and as it lies in memory: the list of \<open>fedora\<close> at address 0, the list of
  \<open>*\<close> at address 1.
\<close>

definition buildsManifest :: "string list DotfileManifest" where
  "buildsManifest =
     \<lparr>name = ''git'', description = None, priority = None,
      builds = Some [(''fedora'', [''a'']), (''*'', [''b''])],
      configs = None, cleanup = None\<rparr>"


definition buildsManifestInMemory :: "nat DotfileManifest" where
  "buildsManifestInMemory = fst (allocManifest buildsManifest [])"

definition buildsHeap :: "string list list" where
  "buildsHeap = snd (allocManifest buildsManifest [])"

text \<open>
  A source root whose component \<open>git\<close> has a \<open>builds\<close> directory with a script for
  \<open>fedora\<close> that is not yet executable (mode \<open>0o644\<close>).
\<close>

definition scriptsFs :: memfs where
  "scriptsFs =
     [(''/src'', DirNode),
      (''/src/git'', DirNode),
      (''/src/git/builds'', DirNode),
      (''/src/git/builds/fedora.sh'', FileNode 420 ''#!/bin/sh'')]"

definition scriptsState :: "memfs state" where
  "scriptsState = \<lparr>world = scriptsFs, logs = [], calls = [], heap = buildsHeap\<rparr>"

text \<open>
  The file system after a first install of \<open>git\<close>: the link \<open>/home/u/.gitconfig\<close>
  exists. \<open>gitEntry\<close> is the entry that placed it; \<open>lostEntry\<close> has the same
  destination and a source that does not exist.
\<close>

definition installedFs :: memfs where
  "installedFs = (''/home/u/.gitconfig'', LinkNode ''/src/git/gitconfig'') # demoFs"

definition gitEntry :: ConfigSrc where
  "gitEntry =
     \<lparr>cfg_from = ''gitconfig'', cfg_to = ''~/.gitconfig'', cfg_method = Symlink,
      force = False, tags = [''*'']\<rparr>"

definition lostEntry :: ConfigSrc where
  "lostEntry =
     \<lparr>cfg_from = ''lost'', cfg_to = ''~/.gitconfig'', cfg_method = Symlink,
      force = False, tags = [''*'']\<rparr>"

section \<open>Properties of the path resolver\<close>

lemma getSubstitution_plain:
  "CHR ''$'' \<notin> set t \<Longrightarrow> getSubstitution m a t = t"
  by (induction m a t rule: getSubstitution.induct) auto

lemmas posix_resolve_defs =
  posix_resolve_def normalizeString_def isAbsolutePath_def startsWith_def

text \<open>
  C3, as amended. \<open>resolveHomePath\<close> fails exactly when the path starts with \<open>~\<close>,
  whatever follows it, and HOME is unset or empty; the error is then the home-not-set
  error. With a HOME that is set, not empty and free of \<open>$\<close>, a path that is \<open>~\<close>
  followed by the end of the string, a slash or a backslash has that \<open>~\<close> replaced by
  HOME and the result made absolute; any other path (\<open>~foo\<close> too) is made absolute as it
  is. A path that does not start with \<open>~\<close> is made absolute as it is, whatever HOME is.
\<close>

theorem resolveHomePath_cases:
  "((\<exists>e. resolveHomePath S p = Inl e)
      = (startsWith p ''~'' \<and> (env_HOME S = None \<or> env_HOME S = Some [])))
   \<and> (\<forall>e. resolveHomePath S p = Inl e \<longrightarrow> e = HomeNotSet)
   \<and> (\<forall>home rest.
         env_HOME S = Some home \<and> home \<noteq> [] \<and> CHR ''$'' \<notin> set home
         \<and> p = CHR ''~'' # rest
         \<and> (rest = [] \<or> hd rest = CHR ''/'' \<or> hd rest = CHR 0x5C)
         \<longrightarrow> resolveHomePath S p = Inr (path_resolve S [home @ rest]))
   \<and> (\<forall>home.
         env_HOME S = Some home \<and> home \<noteq> []
         \<and> (\<nexists>rest. p = CHR ''~'' # rest
                \<and> (rest = [] \<or> hd rest = CHR ''/'' \<or> hd rest = CHR 0x5C))
         \<longrightarrow> resolveHomePath S p = Inr (path_resolve S [p]))
   \<and> (\<not> startsWith p ''~'' \<longrightarrow> resolveHomePath S p = Inr (path_resolve S [p]))"
proof (intro conjI allI impI)
  show "(\<exists>e. resolveHomePath S p = Inl e)
      = (startsWith p ''~'' \<and> (env_HOME S = None \<or> env_HOME S = Some []))"
    by (auto simp: resolveHomePath_def split: option.splits if_splits)
next
  fix e assume "resolveHomePath S p = Inl e"
  then show "e = HomeNotSet"
    by (auto simp: resolveHomePath_def split: option.splits if_splits)
next
  fix home rest
  assume h: "env_HOME S = Some home \<and> home \<noteq> [] \<and> CHR ''$'' \<notin> set home
         \<and> p = CHR ''~'' # rest
         \<and> (rest = [] \<or> hd rest = CHR ''/'' \<or> hd rest = CHR 0x5C)"
  then have "replaceLeadingTilde p home = home @ rest"
    by (auto simp: replaceLeadingTilde_def getSubstitution_plain)
  with h show "resolveHomePath S p = Inr (path_resolve S [home @ rest])"
    by (auto simp: resolveHomePath_def startsWith_def)
next
  fix home
  assume h: "env_HOME S = Some home \<and> home \<noteq> []
         \<and> (\<nexists>rest. p = CHR ''~'' # rest
                \<and> (rest = [] \<or> hd rest = CHR ''/'' \<or> hd rest = CHR 0x5C))"
  then have "replaceLeadingTilde p home = p"
    by (auto simp: replaceLeadingTilde_def split: list.splits)
  with h show "resolveHomePath S p = Inr (path_resolve S [p])"
    by (auto simp: resolveHomePath_def)
next
  assume "\<not> startsWith p ''~''"
  then show "resolveHomePath S p = Inr (path_resolve S [p])"
    by (simp add: resolveHomePath_def)
qed

text \<open>
  The theorem at work: with HOME \<open>/home/u\<close> and working directory \<open>/work\<close>, \<open>~/foo\<close>
  becomes \<open>/home/u/foo\<close>, while \<open>~foo\<close> and \<open>foo\<close> are resolved against the working
  directory; with HOME unset \<open>~/foo\<close> fails.
\<close>

theorem resolveHomePath_cases_witness:
  "resolveHomePath (mem_sys (Some ''/home/u'') ''/work'' []) ''~/foo'' = Inr ''/home/u/foo''
   \<and> resolveHomePath (mem_sys (Some ''/home/u'') ''/work'' []) ''~foo'' = Inr ''/work/~foo''
   \<and> resolveHomePath (mem_sys (Some ''/home/u'') ''/work'' []) ''foo'' = Inr ''/work/foo''
   \<and> resolveHomePath (mem_sys None ''/work'' []) ''~/foo'' = Inl HomeNotSet"
proof -
  let ?S = "mem_sys (Some ''/home/u'') ''/work'' [] :: memfs sys"
  let ?N = "mem_sys None ''/work'' [] :: memfs sys"
  have home: "env_HOME ?S = Some ''/home/u''" and none: "env_HOME ?N = None"
    by (simp_all add: mem_sys_def)
  have res: "path_resolve ?S = posix_resolve ''/work''"
    by (simp add: mem_sys_def)
  have "resolveHomePath ?S ''~/foo'' = Inr (path_resolve ?S [''/home/u'' @ ''/foo''])"
    using resolveHomePath_cases [of ?S "''~/foo''"] home by simp
  then have a: "resolveHomePath ?S ''~/foo'' = Inr ''/home/u/foo''"
    by (simp add: res posix_resolve_defs)
  have "resolveHomePath ?S ''~foo'' = Inr (path_resolve ?S [''~foo''])"
    using resolveHomePath_cases [of ?S "''~foo''"] home by simp
  then have b: "resolveHomePath ?S ''~foo'' = Inr ''/work/~foo''"
    by (simp add: res posix_resolve_defs)
  have "resolveHomePath ?S ''foo'' = Inr (path_resolve ?S [''foo''])"
    using resolveHomePath_cases [of ?S "''foo''"] by (simp add: startsWith_def)
  then have c: "resolveHomePath ?S ''foo'' = Inr ''/work/foo''"
    by (simp add: res posix_resolve_defs)
  have "\<exists>e. resolveHomePath ?N ''~/foo'' = Inl e"
    using resolveHomePath_cases [of ?N "''~/foo''"] none by (simp add: startsWith_def)
  then have d: "resolveHomePath ?N ''~/foo'' = Inl HomeNotSet"
    using resolveHomePath_cases [of ?N "''~/foo''"] by blast
  from a b c d show ?thesis by blast
qed

text \<open>
  C3 as stated says that \<open>~foo\<close> is made absolute with no error. With HOME unset the
  code throws for it: the check of HOME sits behind \<open>path.startsWith("~")\<close> alone.
\<close>

theorem resolveHomePath_tilde_name_counterexample:
  "resolveHomePath (mem_sys None ''/work'' []) ''~foo'' = Inl HomeNotSet
   \<and> resolveHomePath (mem_sys None ''/work'' []) ''~foo''
       \<noteq> Inr (path_resolve (mem_sys None ''/work'' []) [''~foo''])"
  by (simp add: resolveHomePath_def mem_sys_def startsWith_def)

section \<open>Properties of the selection filter\<close>

text \<open>
  C9. The selection filter is idempotent: with the same tag and exclude arguments (and
  the same machine identifier), filtering its own output gives that output again.
\<close>

theorem selectComponents_idempotent:
  "selectComponents ftags fexclude machineId (selectComponents ftags fexclude machineId all)
     = selectComponents ftags fexclude machineId all"
  unfolding selectComponents_def finalList_def filteredByTags_def Let_def
  by (auto intro!: filter_cong)

section \<open>Properties of the catalog sort\<close>

lemma set_insertSorted: "set (insertSorted cmp x xs) = insert x (set xs)"
  by (induction xs) auto

lemma mset_insertSorted: "mset (insertSorted cmp x xs) = add_mset x (mset xs)"
  by (induction xs) auto

lemma mset_arraySort: "mset (arraySort cmp xs) = mset xs"
  by (induction xs) (auto simp: arraySort_def mset_insertSorted)

lemma sorted_insertSorted:
  assumes total: "\<And>a b. R a b \<or> R b a"
    and trans: "\<And>a b c. R a b \<Longrightarrow> R b c \<Longrightarrow> R a c"
    and R: "\<And>a b. R a b = (\<not> isPositive (cmp a b))"
  shows "sorted_wrt R xs \<Longrightarrow> sorted_wrt R (insertSorted cmp x xs)"
proof (induction xs)
  case Nil
  then show ?case by simp
next
  case (Cons y ys)
  show ?case
  proof (cases "isPositive (cmp x y)")
    case True
    then have "R y x" using total [of x y] R by auto
    with Cons True show ?thesis by (auto simp: set_insertSorted)
  next
    case False
    then have "R x y" using R by simp
    with Cons.prems trans have "\<forall>z\<in>set ys. R x z" by auto
    with Cons.prems False \<open>R x y\<close> show ?thesis by auto
  qed
qed

lemma sorted_arraySort:
  assumes total: "\<And>a b. R a b \<or> R b a"
    and trans: "\<And>a b c. R a b \<Longrightarrow> R b c \<Longrightarrow> R a c"
    and R: "\<And>a b. R a b = (\<not> isPositive (cmp a b))"
  shows "sorted_wrt R (arraySort cmp xs)"
proof (induction xs)
  case Nil
  then show ?case by (simp add: arraySort_def)
next
  case (Cons x xs)
  have "arraySort cmp (x # xs) = insertSorted cmp x (arraySort cmp xs)"
    by (simp add: arraySort_def)
  with Cons sorted_insertSorted [of R cmp, OF total trans R] show ?case by simp
qed

lemma compareByPriority_positive:
  "isPositive (compareByPriority S a b)
     = (priorityBefore (priority b) (priority a)
        \<or> (priority a = priority b \<and> 0 < localeCompare S (name a) (name b)))"
  by (auto simp: compareByPriority_def isPositive_def jsMinus_def priorityBefore_def Let_def
           split: option.splits)

lemma compareByPriority_negative:
  "isNegative (compareByPriority S a b)
     = (priorityBefore (priority a) (priority b)
        \<or> (priority a = priority b \<and> localeCompare S (name a) (name b) < 0))"
  by (auto simp: compareByPriority_def isNegative_def jsMinus_def priorityBefore_def Let_def
           split: option.splits)

lemma priorityBefore_cases:
  "priorityBefore p q \<or> p = q \<or> priorityBefore q p"
  by (auto simp: priorityBefore_def split: option.splits)

lemma priorityBefore_trans:
  "priorityBefore p q \<Longrightarrow> priorityBefore q r \<Longrightarrow> priorityBefore p r"
  by (auto simp: priorityBefore_def split: option.splits)

lemma priorityBefore_asym: "priorityBefore p q \<Longrightarrow> \<not> priorityBefore q p"
  by (auto simp: priorityBefore_def split: option.splits)

lemma priorityBefore_irrefl: "\<not> priorityBefore p p"
  by (auto simp: priorityBefore_def split: option.splits)

lemma consistent_total:
  "consistentComparator lc \<Longrightarrow> lc x y \<le> 0 \<or> lc y x \<le> 0"
  unfolding consistentComparator_def by (metis not_le less_le_not_le)

lemma spec_priorityOrder_total:
  assumes "consistentComparator (localeCompare S)"
  shows "spec_priorityOrder S a b \<or> spec_priorityOrder S b a"
  using priorityBefore_cases [of "priority a" "priority b"]
    consistent_total [OF assms, of "name a" "name b"]
  by (auto simp: spec_priorityOrder_def)

lemma spec_priorityOrder_trans:
  assumes c: "consistentComparator (localeCompare S)"
    and "spec_priorityOrder S a b" and "spec_priorityOrder S b d"
  shows "spec_priorityOrder S a d"
proof -
  from c have t: "\<And>x y z. localeCompare S x y \<le> 0 \<Longrightarrow> localeCompare S y z \<le> 0
                   \<Longrightarrow> localeCompare S x z \<le> 0"
    unfolding consistentComparator_def by blast
  from assms(2,3) show ?thesis
    unfolding spec_priorityOrder_def
    using priorityBefore_trans t by metis
qed

lemma spec_priorityOrder_code:
  "consistentComparator (localeCompare S) \<Longrightarrow>
     spec_priorityOrder S a b = (\<not> isPositive (compareByPriority S a b))"
  unfolding compareByPriority_positive spec_priorityOrder_def consistentComparator_def
  using priorityBefore_cases [of "priority a" "priority b"]
    priorityBefore_asym [of "priority a" "priority b"] priorityBefore_irrefl [of "priority a"]
  by (metis not_le)

lemma spec_nameOrder_code:
  "spec_nameOrder S a b = (\<not> isPositive (compareByName S a b))"
  by (auto simp: spec_nameOrder_def compareByName_def isPositive_def)


lemma comparesEqual_priority:
  assumes "consistentComparator (localeCompare S)"
  shows "comparesEqual (compareByPriority S a b)
     = (priority a = priority b \<and> localeCompare S (name a) (name b) = 0)"
  unfolding comparesEqual_def compareByPriority_positive compareByPriority_negative
  using priorityBefore_cases [of "priority a" "priority b"]
    priorityBefore_irrefl [of "priority a"]
  by auto

lemma comparesEqual_name:
  "comparesEqual (compareByName S a b) = (localeCompare S (name a) (name b) = 0)"
  by (auto simp: comparesEqual_def compareByName_def isPositive_def isNegative_def)

lemma sorted_byPriority:
  fixes ms :: "'c DotfileManifest list"
  assumes lc: "consistentComparator (localeCompare S)"
  shows "sorted_wrt (spec_priorityOrder S) (sortManifests S ByPriority ms)"
proof -
  have "sorted_wrt (spec_priorityOrder S) (arraySort (compareByPriority S) ms)"
  proof (rule sorted_arraySort)
    fix a b :: "'c DotfileManifest"
    show "spec_priorityOrder S a b \<or> spec_priorityOrder S b a"
      by (rule spec_priorityOrder_total [OF lc])
  next
    fix a b d :: "'c DotfileManifest"
    assume "spec_priorityOrder S a b" and "spec_priorityOrder S b d"
    then show "spec_priorityOrder S a d"
      by (rule spec_priorityOrder_trans [OF lc])
  next
    fix a b :: "'c DotfileManifest"
    show "spec_priorityOrder S a b = (\<not> isPositive (compareByPriority S a b))"
      by (rule spec_priorityOrder_code [OF lc])
  qed
  then show ?thesis by (simp add: sortManifests_def)
qed

lemma spec_nameOrder_total:
  "consistentComparator (localeCompare S) \<Longrightarrow> spec_nameOrder S a b \<or> spec_nameOrder S b a"
  unfolding spec_nameOrder_def by (rule consistent_total)

lemma spec_nameOrder_trans:
  "consistentComparator (localeCompare S) \<Longrightarrow> spec_nameOrder S a b \<Longrightarrow> spec_nameOrder S b d
     \<Longrightarrow> spec_nameOrder S a d"
  unfolding spec_nameOrder_def consistentComparator_def by blast

lemma sorted_byName:
  fixes ms :: "'c DotfileManifest list"
  assumes lc: "consistentComparator (localeCompare S)"
  shows "sorted_wrt (spec_nameOrder S) (sortManifests S ByName ms)"
proof -
  have "sorted_wrt (spec_nameOrder S) (arraySort (compareByName S) ms)"
  proof (rule sorted_arraySort)
    fix a b :: "'c DotfileManifest"
    show "spec_nameOrder S a b \<or> spec_nameOrder S b a"
      by (rule spec_nameOrder_total [OF lc])
  next
    fix a b d :: "'c DotfileManifest"
    assume "spec_nameOrder S a b" and "spec_nameOrder S b d"
    then show "spec_nameOrder S a d"
      by (rule spec_nameOrder_trans [OF lc])
  next
    fix a b :: "'c DotfileManifest"
    show "spec_nameOrder S a b = (\<not> isPositive (compareByName S a b))"
      by (rule spec_nameOrder_code)
  qed
  then show ?thesis by (simp add: sortManifests_def)
qed

lemma mset_sortManifests: "mset (sortManifests S sortBy ms) = mset ms"
  by (simp add: sortManifests_def mset_arraySort)

lemma zero_before_absent:
  assumes c: "consistentComparator (localeCompare S)"
    and i: "i < length ms" and j: "j < length ms"
    and pi: "priority (sortManifests S ByPriority ms ! i) = Some 0"
    and pj: "priority (sortManifests S ByPriority ms ! j) = None"
  shows "i < j"
proof (rule ccontr)
  let ?r = "sortManifests S ByPriority ms"
  assume "\<not> i < j"
  moreover from pi pj have "i \<noteq> j" by auto
  ultimately have "j < i" by simp
  moreover have "length ?r = length ms"
    using mset_sortManifests [of S ByPriority ms] by (metis size_mset)
  ultimately have "spec_priorityOrder S (?r ! j) (?r ! i)"
    using sorted_byPriority [OF c, of ms] i by (simp add: sorted_wrt_iff_nth_less)
  with pi pj show False
    by (simp add: spec_priorityOrder_def priorityBefore_def)
qed

lemma compareWeights_Cons_le:
  "(compareWeights (x # xs) (y # ys) \<le> 0) = (x < y \<or> (x = y \<and> compareWeights xs ys \<le> 0))"
  by (cases "x < y"; cases "y < x") auto

lemma compareWeights_Cons_neg:
  "(compareWeights (x # xs) (y # ys) < 0) = (x < y \<or> (x = y \<and> compareWeights xs ys < 0))"
  by (cases "x < y"; cases "y < x") auto

lemma compareWeights_Cons_pos:
  "(0 < compareWeights (x # xs) (y # ys)) = (y < x \<or> (x = y \<and> 0 < compareWeights xs ys))"
  by (cases "x < y"; cases "y < x") auto

lemma compareWeights_Cons_zero:
  "(compareWeights (x # xs) (y # ys) = 0) = (x = y \<and> compareWeights xs ys = 0)"
  by (cases "x < y"; cases "y < x") auto

lemma compareWeights_antisym: "(compareWeights x y < 0) = (0 < compareWeights y x)"
proof (induction x arbitrary: y)
  case Nil
  show ?case by (cases y) simp_all
next
  case (Cons a x)
  show ?case
  proof (cases y)
    case Nil
    then show ?thesis by simp
  next
    case (Cons b ys)
    with Cons.IH [of ys] show ?thesis
      unfolding Cons compareWeights_Cons_neg compareWeights_Cons_pos by blast
  qed
qed

lemma compareWeights_zero: "(compareWeights x y = 0) = (x = y)"
proof (induction x arbitrary: y)
  case Nil
  show ?case by (cases y) simp_all
next
  case (Cons a x)
  show ?case
  proof (cases y)
    case Nil
    then show ?thesis by simp
  next
    case (Cons b ys)
    with Cons.IH [of ys] show ?thesis
      unfolding Cons compareWeights_Cons_zero by simp
  qed
qed

lemma compareWeights_trans:
  "compareWeights x y \<le> 0 \<Longrightarrow> compareWeights y z \<le> 0 \<Longrightarrow> compareWeights x z \<le> 0"
proof (induction x arbitrary: y z)
  case Nil
  show ?case by (cases z) simp_all
next
  case (Cons a x)
  from Cons.prems(1) obtain b ys where y: "y = b # ys" by (cases y) auto
  from Cons.prems(2) y obtain c zs where z: "z = c # zs" by (cases z) auto
  from Cons.prems(1) have 1: "a < b \<or> (a = b \<and> compareWeights x ys \<le> 0)"
    unfolding y compareWeights_Cons_le .
  from Cons.prems(2) have 2: "b < c \<or> (b = c \<and> compareWeights ys zs \<le> 0)"
    unfolding y z compareWeights_Cons_le .
  from 1 2 Cons.IH [of ys zs]
  have "a < c \<or> (a = c \<and> compareWeights x zs \<le> 0)"
    by (metis less_trans)
  then show ?case unfolding z compareWeights_Cons_le .
qed

lemma compareWeights_strict_trans:
  assumes "compareWeights x y < 0" and "compareWeights y z \<le> 0"
  shows "compareWeights x z < 0"
proof -
  from assms have le: "compareWeights x z \<le> 0"
    using compareWeights_trans [of x y z] by simp
  have "compareWeights x z \<noteq> 0"
  proof
    assume "compareWeights x z = 0"
    then have "x = z" by (simp add: compareWeights_zero)
    with assms(2) have "compareWeights y x \<le> 0" by simp
    with assms(1) show False using compareWeights_antisym [of x y] by simp
  qed
  with le show ?thesis by simp
qed

lemma rootCollate_le:
  "(rootCollate a b \<le> 0)
     = (compareWeights (primaryKey a) (primaryKey b) < 0
        \<or> (primaryKey a = primaryKey b
            \<and> compareWeights (tertiaryKey a) (tertiaryKey b) \<le> 0))"
  using compareWeights_zero [of "primaryKey a" "primaryKey b"]
  by (auto simp: rootCollate_def Let_def)

lemma rootCollate_neg:
  "(rootCollate a b < 0)
     = (compareWeights (primaryKey a) (primaryKey b) < 0
        \<or> (primaryKey a = primaryKey b
            \<and> compareWeights (tertiaryKey a) (tertiaryKey b) < 0))"
  using compareWeights_zero [of "primaryKey a" "primaryKey b"]
  by (auto simp: rootCollate_def Let_def)

lemma rootCollate_pos:
  "(0 < rootCollate a b)
     = (0 < compareWeights (primaryKey a) (primaryKey b)
        \<or> (primaryKey a = primaryKey b
            \<and> 0 < compareWeights (tertiaryKey a) (tertiaryKey b)))"
  using compareWeights_zero [of "primaryKey a" "primaryKey b"]
  by (auto simp: rootCollate_def Let_def)

lemma rootCollate_antisym: "(rootCollate a b < 0) = (0 < rootCollate b a)"
  unfolding rootCollate_neg rootCollate_pos
  using compareWeights_antisym by metis

lemma rootCollate_trans:
  assumes "rootCollate a b \<le> 0" and "rootCollate b c \<le> 0"
  shows "rootCollate a c \<le> 0"
proof -
  let ?p = "\<lambda>x y. compareWeights (primaryKey x) (primaryKey y)"
  let ?t = "\<lambda>x y. compareWeights (tertiaryKey x) (tertiaryKey y)"
  from assms(1) have 1: "?p a b < 0 \<or> (primaryKey a = primaryKey b \<and> ?t a b \<le> 0)"
    unfolding rootCollate_le .
  from assms(2) have 2: "?p b c < 0 \<or> (primaryKey b = primaryKey c \<and> ?t b c \<le> 0)"
    unfolding rootCollate_le .
  have "?p a c < 0 \<or> (primaryKey a = primaryKey c \<and> ?t a c \<le> 0)"
  proof (cases "?p a b < 0")
    case True
    with 2 have "?p a c < 0"
      using compareWeights_strict_trans [of "primaryKey a" "primaryKey b" "primaryKey c"]
      by (auto simp: less_imp_le)
    then show ?thesis ..
  next
    case False
    with 1 have ab: "primaryKey a = primaryKey b" "?t a b \<le> 0" by auto
    show ?thesis
    proof (cases "?p b c < 0")
      case True
      with ab show ?thesis by simp
    next
      case False
      with 2 have bc: "primaryKey b = primaryKey c" "?t b c \<le> 0" by auto
      from ab bc compareWeights_trans [of "tertiaryKey a" "tertiaryKey b" "tertiaryKey c"]
      show ?thesis by simp
    qed
  qed
  then show ?thesis unfolding rootCollate_le .
qed

lemma consistent_rootCollate: "consistentComparator rootCollate"
  unfolding consistentComparator_def
  using rootCollate_antisym rootCollate_trans by blast

lemma sortDemo_byPriority:
  "sortManifests (mem_sys None ''/work'' []) ByPriority sortDemo
     = [component ''git'' (Some 0), component ''Kitty'' (Some 5), component ''zsh'' (Some 5),
        component ''shell'' None]"
  by code_simp

lemma sortDemo_byName:
  "sortManifests (mem_sys None ''/work'' []) ByName sortDemo
     = [component ''git'' (Some 0), component ''Kitty'' (Some 5), component ''shell'' None,
        component ''zsh'' (Some 5)]"
  by code_simp

text \<open>
  C4, as amended. Let \<open>localeCompare\<close> be a consistent comparator. Sorting rearranges
  the list without adding or dropping a component. In \<open>priority\<close> mode the result is
  ordered by ascending priority with an absent priority as infinitely large, and equal
  priorities by the order \<open>localeCompare\<close> gives their names; in \<open>name\<close> mode by that
  order alone. Two components compare equal exactly when \<open>localeCompare\<close> returns 0 for
  their names and, in \<open>priority\<close> mode, their priorities are equal too. A component with
  priority 0 compares before one with no priority and stands before it in the result.
\<close>

theorem catalog_sort_order:
  assumes lc: "consistentComparator (localeCompare S)"
  shows
    "mset (sortManifests S sortBy ms) = mset ms
     \<and> sorted_wrt (spec_priorityOrder S) (sortManifests S ByPriority ms)
     \<and> sorted_wrt (spec_nameOrder S) (sortManifests S ByName ms)
     \<and> (comparesEqual (compareByPriority S a b)
          = (priority a = priority b \<and> localeCompare S (name a) (name b) = 0))
     \<and> (comparesEqual (compareByName S a b) = (localeCompare S (name a) (name b) = 0))
     \<and> (priority a = Some 0 \<and> priority b = None \<longrightarrow>
          isNegative (compareByPriority S a b))
     \<and> (\<forall>i j. i < length ms \<and> j < length ms
            \<and> priority (sortManifests S ByPriority ms ! i) = Some 0
            \<and> priority (sortManifests S ByPriority ms ! j) = None
          \<longrightarrow> i < j)"
proof (intro conjI)
  show "mset (sortManifests S sortBy ms) = mset ms"
    by (rule mset_sortManifests)
  show "sorted_wrt (spec_priorityOrder S) (sortManifests S ByPriority ms)"
    by (rule sorted_byPriority [OF lc])
  show "sorted_wrt (spec_nameOrder S) (sortManifests S ByName ms)"
    by (rule sorted_byName [OF lc])
  show "comparesEqual (compareByPriority S a b)
          = (priority a = priority b \<and> localeCompare S (name a) (name b) = 0)"
    by (rule comparesEqual_priority [OF lc])
  show "comparesEqual (compareByName S a b) = (localeCompare S (name a) (name b) = 0)"
    by (rule comparesEqual_name)
  show "priority a = Some 0 \<and> priority b = None \<longrightarrow> isNegative (compareByPriority S a b)"
    by (simp add: compareByPriority_negative priorityBefore_def)
  show "\<forall>i j. i < length ms \<and> j < length ms
            \<and> priority (sortManifests S ByPriority ms ! i) = Some 0
            \<and> priority (sortManifests S ByPriority ms ! j) = None
          \<longrightarrow> i < j"
    using zero_before_absent [OF lc] by blast
qed

text \<open>
  The theorem on four components under the collation of names: \<open>git\<close> (priority 0) comes
  first, \<open>Kitty\<close> before \<open>zsh\<close> (both 5), \<open>shell\<close> (no priority) last; by name,
  \<open>git\<close> comes before \<open>Kitty\<close>.
\<close>

theorem catalog_sort_order_witness:
  "consistentComparator (localeCompare (mem_sys None ''/work'' []))
   \<and> sortManifests (mem_sys None ''/work'' []) ByPriority sortDemo
       = [component ''git'' (Some 0), component ''Kitty'' (Some 5),
          component ''zsh'' (Some 5), component ''shell'' None]
   \<and> sorted_wrt (spec_priorityOrder (mem_sys None ''/work'' []))
        [component ''git'' (Some 0), component ''Kitty'' (Some 5),
         component ''zsh'' (Some 5), component ''shell'' None]
   \<and> sortManifests (mem_sys None ''/work'' []) ByName sortDemo
       = [component ''git'' (Some 0), component ''Kitty'' (Some 5),
          component ''shell'' None, component ''zsh'' (Some 5)]
   \<and> sorted_wrt (spec_nameOrder (mem_sys None ''/work'' []))
        [component ''git'' (Some 0), component ''Kitty'' (Some 5),
         component ''shell'' None, component ''zsh'' (Some 5)]
   \<and> isNegative (compareByPriority (mem_sys None ''/work'' [])
        (component ''git'' (Some 0)) (component ''shell'' None))"
proof -
  let ?S = "mem_sys None ''/work'' [] :: memfs sys"
  have lc: "localeCompare ?S = rootCollate"
    by (simp add: mem_sys_def)
  have c: "consistentComparator (localeCompare ?S)"
    unfolding lc by (rule consistent_rootCollate)
  have p: "priority (component ''git'' (Some 0)) = Some 0
           \<and> priority (component ''shell'' None) = None"
    by (simp add: component_def)
  note t = catalog_sort_order [OF c, of ByPriority sortDemo
      "component ''git'' (Some 0)" "component ''shell'' None"]
  from t have "sorted_wrt (spec_priorityOrder ?S) (sortManifests ?S ByPriority sortDemo)"
    by blast
  then have a: "sorted_wrt (spec_priorityOrder ?S)
        [component ''git'' (Some 0), component ''Kitty'' (Some 5),
         component ''zsh'' (Some 5), component ''shell'' None]"
    by (simp only: sortDemo_byPriority)
  from t have "sorted_wrt (spec_nameOrder ?S) (sortManifests ?S ByName sortDemo)"
    by blast
  then have b: "sorted_wrt (spec_nameOrder ?S)
        [component ''git'' (Some 0), component ''Kitty'' (Some 5),
         component ''shell'' None, component ''zsh'' (Some 5)]"
    by (simp only: sortDemo_byName)
  from t p have n: "isNegative (compareByPriority ?S
        (component ''git'' (Some 0)) (component ''shell'' None))"
    by blast
  from c a b n sortDemo_byPriority sortDemo_byName show ?thesis by blast
qed

text \<open>
  C4 as stated says that names are ordered case-sensitively and lexicographically, and
  that two components compare equal only when their names are equal. The code compares
  names with \<open>localeCompare\<close>. Lexicographically \<open>Kitty\<close> comes before \<open>git\<close> (an upper
  case \<open>K\<close> is the smaller code unit); the catalog puts \<open>git\<close> first, in \<open>name\<close> mode
  and, the priorities being equal, in \<open>priority\<close> mode. And the two different names
  \<open>git\<close> and \<open>git\<close> followed by the control character U+0001 compare equal.
\<close>

theorem catalog_sort_lexicographic_counterexample:
  "compareUnits ''Kitty'' ''git'' < 0
   \<and> sortManifests demoSys ByName [component ''Kitty'' None, component ''git'' None]
       = [component ''git'' None, component ''Kitty'' None]
   \<and> sortManifests demoSys ByPriority [component ''Kitty'' None, component ''git'' None]
       = [component ''git'' None, component ''Kitty'' None]
   \<and> name (component ''git'' None) \<noteq> name (component (''git'' @ [CHR 0x01]) None)
   \<and> comparesEqual
         (compareByName demoSys (component ''git'' None)
            (component (''git'' @ [CHR 0x01]) None))
   \<and> comparesEqual
         (compareByPriority demoSys (component ''git'' None)
            (component (''git'' @ [CHR 0x01]) None))"
  by code_simp

section \<open>Properties of the schema\<close>


lemma those_map_Some:
  "those (map f xs) = Some ys \<Longrightarrow>
     length ys = length xs \<and> (\<forall>i<length xs. f (xs ! i) = Some (ys ! i))"
proof (induction xs arbitrary: ys)
  case Nil
  then show ?case by simp
next
  case (Cons x xs)
  then show ?case
    by (auto split: option.splits simp: nth_Cons split: nat.splits)
qed

lemma ConfigSrcSchema_defaults:
  "ConfigSrcSchema_parse v = Inr c \<Longrightarrow>
     (property v ''force'' = None \<longrightarrow> force c = False)
     \<and> (property v ''tags'' = None \<longrightarrow> tags c = [''*''])"
  by (auto simp: ConfigSrcSchema_parse_def property_def zDefault_def Let_def
           split: json.splits option.splits)

lemma zConfigSrc_Some:
  "zConfigSrc (Some x) = Some c \<Longrightarrow> ConfigSrcSchema_parse x = Inr c"
  by (auto simp: zConfigSrc_def split: sum.splits)

lemma manifest_fields:
  assumes "DotfileManifestSchema_parse S doc = Inr m"
  obtains kvs where "doc = JObj kvs"
    and "zOptional (zCoerceNumber S) (map_of kvs ''priority'') = Some (priority m)"
    and "zOptional (zArray zConfigSrc) (map_of kvs ''configs'') = Some (configs m)"
  using assms
  by (auto simp: DotfileManifestSchema_parse_def Let_def split: json.splits option.splits)

lemma parse_gitDocument:
  "DotfileManifestSchema_parse S gitDocument = Inr gitManifest"
  by (simp add: DotfileManifestSchema_parse_def gitDocument_def gitManifest_def zString_def
      zOptional_def zArray_def zConfigSrc_def ConfigSrcSchema_parse_def zMethod_def zEnum_def
      zDefault_def)

text \<open>
  C7. A config entry that validates has \<open>force = false\<close> when its \<open>force\<close> is unset and
  \<open>tags = ["*"]\<close> when its \<open>tags\<close> is unset. A manifest document that validates keeps
  \<open>priority\<close> absent when it is unset, and each entry of its \<open>configs\<close> array is
  validated by the entry schema, so it carries those defaults.
\<close>

theorem schema_defaults:
  "(\<forall>c. ConfigSrcSchema_parse v = Inr c \<longrightarrow>
        (property v ''force'' = None \<longrightarrow> force c = False)
        \<and> (property v ''tags'' = None \<longrightarrow> tags c = [''*'']))
   \<and> (\<forall>m. DotfileManifestSchema_parse S doc = Inr m \<longrightarrow>
        (property doc ''priority'' = None \<longrightarrow> priority m = None)
        \<and> (\<forall>raws. property doc ''configs'' = Some (JArr raws) \<longrightarrow>
              (\<exists>cs. configs m = Some cs \<and> length cs = length raws
                 \<and> (\<forall>i<length raws.
                       ConfigSrcSchema_parse (raws ! i) = Inr (cs ! i)
                       \<and> (property (raws ! i) ''force'' = None \<longrightarrow> force (cs ! i) = False)
                       \<and> (property (raws ! i) ''tags'' = None
                            \<longrightarrow> tags (cs ! i) = [''*''])))))"
proof (intro conjI allI impI)
  fix c assume "ConfigSrcSchema_parse v = Inr c" and "property v ''force'' = None"
  then show "force c = False" using ConfigSrcSchema_defaults by blast
next
  fix c assume "ConfigSrcSchema_parse v = Inr c" and "property v ''tags'' = None"
  then show "tags c = [''*'']" using ConfigSrcSchema_defaults by blast
next
  fix m assume p: "DotfileManifestSchema_parse S doc = Inr m"
    and u: "property doc ''priority'' = None"
  from p obtain kvs where "doc = JObj kvs"
    and "zOptional (zCoerceNumber S) (map_of kvs ''priority'') = Some (priority m)"
    by (rule manifest_fields)
  with u show "priority m = None"
    by (simp add: property_def zOptional_def)
next
  fix m raws assume p: "DotfileManifestSchema_parse S doc = Inr m"
    and u: "property doc ''configs'' = Some (JArr raws)"
  from p obtain kvs where "doc = JObj kvs"
    and "zOptional (zArray zConfigSrc) (map_of kvs ''configs'') = Some (configs m)"
    by (rule manifest_fields)
  with u have e: "map_option Some (those (map (\<lambda>x. zConfigSrc (Some x)) raws))
                    = Some (configs m)"
    by (simp add: property_def zOptional_def zArray_def)
  then obtain cs where cs: "configs m = Some cs"
    by (cases "configs m") auto
  with e have t: "those (map (\<lambda>x. zConfigSrc (Some x)) raws) = Some cs"
    by auto
  from those_map_Some [OF t] zConfigSrc_Some
  have len: "length cs = length raws"
    and el: "\<forall>i<length raws. ConfigSrcSchema_parse (raws ! i) = Inr (cs ! i)"
    by auto
  from el ConfigSrcSchema_defaults
  have "\<forall>i<length raws.
          ConfigSrcSchema_parse (raws ! i) = Inr (cs ! i)
          \<and> (property (raws ! i) ''force'' = None \<longrightarrow> force (cs ! i) = False)
          \<and> (property (raws ! i) ''tags'' = None \<longrightarrow> tags (cs ! i) = [''*''])"
    by blast
  with cs len
  show "\<exists>cs. configs m = Some cs \<and> length cs = length raws
          \<and> (\<forall>i<length raws.
                ConfigSrcSchema_parse (raws ! i) = Inr (cs ! i)
                \<and> (property (raws ! i) ''force'' = None \<longrightarrow> force (cs ! i) = False)
                \<and> (property (raws ! i) ''tags'' = None \<longrightarrow> tags (cs ! i) = [''*'']))"
    by blast
qed

text \<open>
  The theorem on the manifest of a component \<open>git\<close> whose one config entry sets neither
  \<open>force\<close> nor \<open>tags\<close>, and which sets no \<open>priority\<close>.
\<close>

theorem schema_defaults_witness:
  "DotfileManifestSchema_parse (mem_sys None ''/work'' []) gitDocument = Inr gitManifest
   \<and> property gitDocument ''priority'' = None \<and> priority gitManifest = None
   \<and> (\<exists>raw c. property gitDocument ''configs'' = Some (JArr [raw])
         \<and> configs gitManifest = Some [c]
         \<and> property raw ''force'' = None \<and> property raw ''tags'' = None
         \<and> force c = False \<and> tags c = [''*''])"
proof -
  let ?S = "mem_sys None ''/work'' [] :: memfs sys"
  let ?raw = "JObj [(''from'', JStr ''gitconfig''), (''to'', JStr ''~/.gitconfig''),
                    (''method'', JStr ''symlink'')]"
  have p: "DotfileManifestSchema_parse ?S gitDocument = Inr gitManifest"
    by (rule parse_gitDocument)
  have u: "property gitDocument ''priority'' = None"
    and r: "property gitDocument ''configs'' = Some (JArr [?raw])"
    and f: "property ?raw ''force'' = None" and t: "property ?raw ''tags'' = None"
    by (simp_all add: property_def gitDocument_def)
  from schema_defaults [of ?raw ?S gitDocument] p u
  have pr: "priority gitManifest = None" by blast
  from schema_defaults [of ?raw ?S gitDocument] p r
  obtain cs where cs: "configs gitManifest = Some cs" "length cs = 1"
    and el: "(property ([?raw] ! 0) ''force'' = None \<longrightarrow> force (cs ! 0) = False)
             \<and> (property ([?raw] ! 0) ''tags'' = None \<longrightarrow> tags (cs ! 0) = [''*''])"
    by force
  from el f t
  have d: "force (cs ! 0) = False \<and> tags (cs ! 0) = [''*'']" by simp
  from cs have "cs = [cs ! 0]" by (cases cs) auto
  with cs d p u r f t pr show ?thesis by metis
qed

section \<open>Properties of the component catalog\<close>

lemma collectNamed_eq:
  "collectNamed S cp names acc st
     = (acc @ resolvedManifests S cp (world st) names,
        st\<lparr>logs := logs st @ skipWarnings S cp (world st) names\<rparr>)"
proof (induction names arbitrary: acc st)
  case Nil
  then show ?case
    by (simp add: resolvedManifests_def skipWarnings_def)
next
  case (Cons n names)
  show ?case
  proof (cases "resolveManifest S n cp (world st)")
    case (Inl e)
    then show ?thesis
      by (simp add: Cons getManifest_def logged_def resolvedManifests_def skipWarnings_def)
  next
    case (Inr m)
    then show ?thesis
      by (simp add: Cons getManifest_def resolvedManifests_def skipWarnings_def)
  qed
qed

lemma collectEntries_eq:
  "collectEntries S cp entries acc st
     = (acc @ resolvedManifests S cp (world st) (directoryNames entries),
        st\<lparr>logs := logs st @ skipWarnings S cp (world st) (directoryNames entries)\<rparr>)"
proof (induction entries arbitrary: acc st)
  case Nil
  then show ?case
    by (simp add: resolvedManifests_def skipWarnings_def directoryNames_def)
next
  case (Cons en entries)
  show ?case
  proof (cases "entry_isDirectory en")
    case False
    then show ?thesis by (simp add: Cons directoryNames_def)
  next
    case True
    show ?thesis
    proof (cases "resolveManifest S (entry_name en) cp (world st)")
      case (Inl e)
      with True show ?thesis
        by (simp add: Cons getManifest_def logged_def resolvedManifests_def skipWarnings_def
            directoryNames_def)
    next
      case (Inr m)
      with True show ?thesis
        by (simp add: Cons getManifest_def resolvedManifests_def skipWarnings_def
            directoryNames_def)
    qed
  qed
qed

lemma catalog_named:
  assumes "fs_exists S (componentsPathOf S source) (world st) = Inr True"
    and "cmpNames \<noteq> []"
  shows "getAvailableManifests S sortBy cmpNames source st
     = (Inr (sortManifests S sortBy
               (resolvedManifests S (componentsPathOf S source) (world st) cmpNames)),
        st\<lparr>logs := logs st
               @ skipWarnings S (componentsPathOf S source) (world st) cmpNames\<rparr>)"
  using assms by (simp add: getAvailableManifests_def collectNamed_eq Let_def)

lemma catalog_directory:
  assumes "fs_exists S (componentsPathOf S source) (world st) = Inr True"
    and "fs_readDir S (componentsPathOf S source) (world st) = Inr entries"
  shows "getAvailableManifests S sortBy [] source st
     = (Inr (sortManifests S sortBy
               (resolvedManifests S (componentsPathOf S source) (world st)
                  (directoryNames entries))),
        st\<lparr>logs := logs st
               @ skipWarnings S (componentsPathOf S source) (world st)
                   (directoryNames entries)\<rparr>)"
  using assms by (simp add: getAvailableManifests_def collectEntries_eq Let_def)

lemma set_resolvedManifests:
  "set (resolvedManifests S cp w names)
     = {m. \<exists>n\<in>set names. resolveManifest S n cp w = Inr m}"
  by (induction names) (auto simp: resolvedManifests_def split: sum.splits)

lemma checkConfigSources_ok:
  "checkConfigSources S cmpName srcPath cs w = Inr u \<Longrightarrow> c \<in> set cs \<Longrightarrow>
     fs_exists S (path_join S [srcPath, cfg_from c]) w = Inr True"
  by (induction cs) (auto simp: Let_def split: sum.splits if_splits)

lemma resolveManifest_try_checks:
  assumes r: "resolveManifest_try S n cp w = Inr m" and c: "configs m = Some cs"
  shows "checkConfigSources S n (path_join S [path_join S [cp, n]]) cs w = Inr ()"
proof -
  let ?mp = "path_join S [path_join S [cp, n], ''manifest.jsonc'']"
  let ?sp = "path_join S [path_join S [cp, n]]"
  from r have e: "fs_exists S ?mp w = Inr True"
    by (simp add: resolveManifest_try_def Let_def split: sum.splits if_splits)
  from r e obtain raw where t: "fs_readTextFile S ?mp w = Inr raw"
    by (cases "fs_readTextFile S ?mp w") (simp_all add: resolveManifest_try_def Let_def)
  from r e t obtain doc where d: "jsonc_parse S raw = Inr doc"
    by (cases "jsonc_parse S raw") (simp_all add: resolveManifest_try_def Let_def)
  from r e t d obtain man where p: "DotfileManifestSchema_parse S doc = Inr man"
    by (cases "DotfileManifestSchema_parse S doc") (simp_all add: resolveManifest_try_def Let_def)
  from r e t d p obtain info where i: "fs_stat S ?sp w = Inr info"
    by (cases "fs_stat S ?sp w") (simp_all add: resolveManifest_try_def Let_def)
  from r e t d p i have dir: "isDirectory info"
    by (simp add: resolveManifest_try_def Let_def split: if_splits)
  from r e t d p i dir have "man = m"
    by (simp add: resolveManifest_try_def Let_def split: sum.splits)
  with r e t d p i dir c show ?thesis
    by (simp add: resolveManifest_try_def Let_def split: sum.splits)
qed

lemma resolveManifest_sources:
  assumes "resolveManifest S n cp w = Inr m" and "configs m = Some cs" and "c \<in> set cs"
  shows "fs_exists S (path_join S [path_join S [path_join S [cp, n]], cfg_from c]) w = Inr True"
proof -
  from assms(1) have "resolveManifest_try S n cp w = Inr m"
    by (auto simp: resolveManifest_def split: sum.splits)
  then have "checkConfigSources S n (path_join S [path_join S [cp, n]]) cs w = Inr ()"
    using assms(2) by (rule resolveManifest_try_checks)
  then show ?thesis using assms(3) by (rule checkConfigSources_ok)
qed

lemma sorted_sortManifests:
  fixes ms :: "'c DotfileManifest list"
  assumes "consistentComparator (localeCompare S)"
  shows "sorted_wrt (spec_catalogOrder S sortBy) (sortManifests S sortBy ms)"
proof (cases sortBy)
  case ByPriority
  then show ?thesis
    using sorted_byPriority [OF assms, of ms] by (simp add: spec_catalogOrder_def)
next
  case ByName
  then show ?thesis
    using sorted_byName [OF assms, of ms] by (simp add: spec_catalogOrder_def)
qed

lemma catalog_sorted:
  assumes ex: "fs_exists S (componentsPathOf S source) (world st) = Inr True"
    and run: "getAvailableManifests S sortBy cmpNames source st = (Inr r, st')"
    and lc: "consistentComparator (localeCompare S)"
  shows "sorted_wrt (spec_catalogOrder S sortBy) r"
proof (cases "cmpNames = []")
  case False
  from catalog_named [OF ex False, of sortBy] run
  have "r = sortManifests S sortBy
              (resolvedManifests S (componentsPathOf S source) (world st) cmpNames)"
    by simp
  then show ?thesis using sorted_sortManifests [OF lc] by simp
next
  case True
  show ?thesis
  proof (cases "fs_readDir S (componentsPathOf S source) (world st)")
    case (Inl e)
    with ex True have "getAvailableManifests S sortBy cmpNames source st = (Inl e, st)"
      by (simp add: getAvailableManifests_def Let_def)
    with run show ?thesis by simp
  next
    case (Inr entries)
    from catalog_directory [OF ex Inr, of sortBy] run True
    have "r = sortManifests S sortBy
                (resolvedManifests S (componentsPathOf S source) (world st)
                   (directoryNames entries))"
      by simp
    then show ?thesis using sorted_sortManifests [OF lc] by simp
  qed
qed

text \<open>
  C5. Where the source root exists (and, with no names given, its directory can be read),
  the catalog returns a result and never an error: the sorted list of exactly the
  components whose own resolution succeeds, among the names given or else the directories
  under the root, and it logs one warning for each name whose resolution fails. The list
  it returns is in the order of the chosen sort mode (for a consistent \<open>localeCompare\<close>).
  A resolved component is one of the result for every name that resolves to it and for no
  other reason, and every source path its \<open>configs\<close> name exists: a component with a
  \<open>configs[i].from\<close> that does not exist is not resolved and not in the result.
\<close>

theorem catalog_skips_failures:
  assumes ex: "fs_exists S (componentsPathOf S source) (world st) = Inr True"
  shows
    "(cmpNames \<noteq> [] \<longrightarrow>
        getAvailableManifests S sortBy cmpNames source st
          = (Inr (sortManifests S sortBy
                    (resolvedManifests S (componentsPathOf S source) (world st) cmpNames)),
             st\<lparr>logs := logs st
                    @ skipWarnings S (componentsPathOf S source) (world st) cmpNames\<rparr>))
     \<and> (\<forall>entries.
           cmpNames = [] \<and> fs_readDir S (componentsPathOf S source) (world st) = Inr entries
           \<longrightarrow> getAvailableManifests S sortBy cmpNames source st
                 = (Inr (sortManifests S sortBy
                           (resolvedManifests S (componentsPathOf S source) (world st)
                              (directoryNames entries))),
                    st\<lparr>logs := logs st
                           @ skipWarnings S (componentsPathOf S source) (world st)
                               (directoryNames entries)\<rparr>))
     \<and> (\<forall>r st'.
           getAvailableManifests S sortBy cmpNames source st = (Inr r, st')
           \<and> consistentComparator (localeCompare S)
           \<longrightarrow> sorted_wrt (spec_catalogOrder S sortBy) r)
     \<and> (\<forall>names. mset (sortManifests S sortBy
                          (resolvedManifests S (componentsPathOf S source) (world st) names))
           = mset (resolvedManifests S (componentsPathOf S source) (world st) names))
     \<and> (\<forall>names. set (resolvedManifests S (componentsPathOf S source) (world st) names)
           = {m. \<exists>n\<in>set names.
                   resolveManifest S n (componentsPathOf S source) (world st) = Inr m})
     \<and> (\<forall>n m cs c.
           resolveManifest S n (componentsPathOf S source) (world st) = Inr m
           \<and> configs m = Some cs \<and> c \<in> set cs
           \<longrightarrow> fs_exists S
                 (path_join S [path_join S [path_join S [componentsPathOf S source, n]],
                               cfg_from c])
                 (world st) = Inr True)"
proof (intro conjI allI impI)
  assume "cmpNames \<noteq> []"
  then show "getAvailableManifests S sortBy cmpNames source st
          = (Inr (sortManifests S sortBy
                    (resolvedManifests S (componentsPathOf S source) (world st) cmpNames)),
             st\<lparr>logs := logs st
                    @ skipWarnings S (componentsPathOf S source) (world st) cmpNames\<rparr>)"
    by (rule catalog_named [OF ex])
next
  fix entries
  assume a: "cmpNames = []
    \<and> fs_readDir S (componentsPathOf S source) (world st) = Inr entries"
  then have "fs_readDir S (componentsPathOf S source) (world st) = Inr entries" ..
  from catalog_directory [OF ex this] a
  show "getAvailableManifests S sortBy cmpNames source st
                 = (Inr (sortManifests S sortBy
                           (resolvedManifests S (componentsPathOf S source) (world st)
                              (directoryNames entries))),
                    st\<lparr>logs := logs st
                           @ skipWarnings S (componentsPathOf S source) (world st)
                               (directoryNames entries)\<rparr>)"
    by simp
next
  fix r st'
  assume "getAvailableManifests S sortBy cmpNames source st = (Inr r, st')
           \<and> consistentComparator (localeCompare S)"
  then show "sorted_wrt (spec_catalogOrder S sortBy) r"
    using catalog_sorted [OF ex, of sortBy cmpNames r st'] by blast
next
  fix names
  show "mset (sortManifests S sortBy
                (resolvedManifests S (componentsPathOf S source) (world st) names))
           = mset (resolvedManifests S (componentsPathOf S source) (world st) names)"
    by (rule mset_sortManifests)
next
  fix names
  show "set (resolvedManifests S (componentsPathOf S source) (world st) names)
           = {m. \<exists>n\<in>set names.
                   resolveManifest S n (componentsPathOf S source) (world st) = Inr m}"
    by (rule set_resolvedManifests)
next
  fix n m cs c
  assume "resolveManifest S n (componentsPathOf S source) (world st) = Inr m
           \<and> configs m = Some cs \<and> c \<in> set cs"
  then show "fs_exists S
                 (path_join S [path_join S [path_join S [componentsPathOf S source, n]],
                               cfg_from c])
                 (world st) = Inr True"
    using resolveManifest_sources [of S n "componentsPathOf S source" "world st" m cs c]
    by simp
qed

text \<open>
  The theorem on the source root \<open>/dots\<close>, listed as \<open>git\<close>, \<open>broken\<close>, \<open>zsh\<close>:
  \<open>broken\<close> names a payload that does not exist and is skipped with a warning; \<open>zsh\<close>
  (priority 5) is returned before \<open>git\<close> (no priority), by name and by listing.
\<close>

theorem catalog_skips_failures_witness:
  "fs_exists catalogSys (componentsPathOf catalogSys (Some ''/dots''))
     (world (initialState catalogFs)) = Inr True
   \<and> consistentComparator (localeCompare catalogSys)
   \<and> resolveManifest catalogSys ''git'' ''/dots'' catalogFs = Inr gitManifest
   \<and> resolveManifest catalogSys ''zsh'' ''/dots'' catalogFs = Inr zshManifest
   \<and> resolveManifest catalogSys ''broken'' ''/dots'' catalogFs
       = Inl (ResolveFailed ''broken''
               (ConfigSourceNotFound ''missing'' ''broken'' ''/dots/broken/missing''))
   \<and> getAvailableManifests catalogSys ByPriority [''git'', ''broken'', ''zsh'']
         (Some ''/dots'') (initialState catalogFs)
       = (Inr [zshManifest, gitManifest],
          \<lparr>world = catalogFs,
           logs = [WarnSkippingComponent ''broken''
                    (ResolveFailed ''broken''
                      (ConfigSourceNotFound ''missing'' ''broken''
                         ''/dots/broken/missing''))],
           calls = [], heap = []\<rparr>)
   \<and> getAvailableManifests catalogSys ByPriority [] (Some ''/dots'') (initialState catalogFs)
       = (Inr [zshManifest, gitManifest],
          \<lparr>world = catalogFs,
           logs = [WarnSkippingComponent ''broken''
                    (ResolveFailed ''broken''
                      (ConfigSourceNotFound ''missing'' ''broken''
                         ''/dots/broken/missing''))],
           calls = [], heap = []\<rparr>)
   \<and> sorted_wrt (spec_catalogOrder catalogSys ByPriority) [zshManifest, gitManifest]
   \<and> \<not> sorted_wrt (spec_catalogOrder catalogSys ByPriority) [gitManifest, zshManifest]"
proof -
  let ?st = "initialState catalogFs"
  let ?cp = "componentsPathOf catalogSys (Some ''/dots'')"
  let ?warn = "WarnSkippingComponent ''broken''
                 (ResolveFailed ''broken''
                   (ConfigSourceNotFound ''missing'' ''broken'' ''/dots/broken/missing''))"
  let ?entries = "[\<lparr>entry_name = ''git'', entry_isFile = False, entry_isDirectory = True\<rparr>,
                   \<lparr>entry_name = ''broken'', entry_isFile = False, entry_isDirectory = True\<rparr>,
                   \<lparr>entry_name = ''zsh'', entry_isFile = False, entry_isDirectory = True\<rparr>]"
  let ?names = "[''git'', ''broken'', ''zsh'']"
  let ?final = "\<lparr>world = catalogFs, logs = [?warn], calls = [], heap = []\<rparr>"
  have ex: "fs_exists catalogSys ?cp (world ?st) = Inr True"
    by code_simp
  have "localeCompare catalogSys = rootCollate"
    by (simp add: catalogSys_def mem_sys_def)
  then have lc: "consistentComparator (localeCompare catalogSys)"
    using consistent_rootCollate by simp
  have rd: "fs_readDir catalogSys ?cp (world ?st) = Inr ?entries"
    by code_simp
  have g: "resolveManifest catalogSys ''git'' ''/dots'' catalogFs = Inr gitManifest"
    by code_simp
  have z: "resolveManifest catalogSys ''zsh'' ''/dots'' catalogFs = Inr zshManifest"
    by code_simp
  have b: "resolveManifest catalogSys ''broken'' ''/dots'' catalogFs
       = Inl (ResolveFailed ''broken''
               (ConfigSourceNotFound ''missing'' ''broken'' ''/dots/broken/missing''))"
    by code_simp
  have n1: "sortManifests catalogSys ByPriority
              (resolvedManifests catalogSys ?cp (world ?st) ?names)
              = [zshManifest, gitManifest]"
    by code_simp
  have n2: "?st\<lparr>logs := logs ?st @ skipWarnings catalogSys ?cp (world ?st) ?names\<rparr>
              = ?final"
    by code_simp
  have d1: "sortManifests catalogSys ByPriority
              (resolvedManifests catalogSys ?cp (world ?st) (directoryNames ?entries))
              = [zshManifest, gitManifest]"
    by code_simp
  have d2: "?st\<lparr>logs := logs ?st
                 @ skipWarnings catalogSys ?cp (world ?st) (directoryNames ?entries)\<rparr>
              = ?final"
    by code_simp
  note t = catalog_skips_failures [OF ex, of _ ByPriority]
  from t [of ?names]
  have "getAvailableManifests catalogSys ByPriority ?names (Some ''/dots'') ?st
          = (Inr (sortManifests catalogSys ByPriority
                    (resolvedManifests catalogSys ?cp (world ?st) ?names)),
             ?st\<lparr>logs := logs ?st @ skipWarnings catalogSys ?cp (world ?st) ?names\<rparr>)"
    by blast
  then have named:
    "getAvailableManifests catalogSys ByPriority ?names (Some ''/dots'') ?st
          = (Inr [zshManifest, gitManifest], ?final)"
    by (simp only: n1 n2)
  from t [of "[]"] rd
  have "getAvailableManifests catalogSys ByPriority [] (Some ''/dots'') ?st
          = (Inr (sortManifests catalogSys ByPriority
                    (resolvedManifests catalogSys ?cp (world ?st) (directoryNames ?entries))),
             ?st\<lparr>logs := logs ?st
                    @ skipWarnings catalogSys ?cp (world ?st) (directoryNames ?entries)\<rparr>)"
    by blast
  then have listed:
    "getAvailableManifests catalogSys ByPriority [] (Some ''/dots'') ?st
          = (Inr [zshManifest, gitManifest], ?final)"
    by (simp only: d1 d2)
  from t [of "[]"] listed lc
  have ordered: "sorted_wrt (spec_catalogOrder catalogSys ByPriority) [zshManifest, gitManifest]"
    by blast
  have unordered:
    "\<not> sorted_wrt (spec_catalogOrder catalogSys ByPriority) [gitManifest, zshManifest]"
    by (simp add: spec_catalogOrder_def spec_priorityOrder_def priorityBefore_def
        gitManifest_def zshManifest_def component_def)
  from ex lc g z b named listed ordered unordered show ?thesis by blast
qed



lemma count_resolvedManifests:
  "count_list (resolvedManifests S cp w names) m
     = length (filter (\<lambda>n. resolveManifest S n cp w = Inr m) names)"
  by (induction names) (auto simp: resolvedManifests_def split: sum.splits)

lemma count_list_filter: "count_list xs x = length (filter (\<lambda>y. y = x) xs)"
  by (induction xs) auto

lemma length_filter_mono:
  "(\<And>x. x \<in> set xs \<Longrightarrow> P x \<Longrightarrow> Q x) \<Longrightarrow> length (filter P xs) \<le> length (filter Q xs)"
  by (induction xs) auto

lemma count_names_le:
  assumes "resolveManifest S n cp w = Inr m"
  shows "count_list names n \<le> count_list (resolvedManifests S cp w names) m"
proof -
  have "count_list names n = length (filter (\<lambda>y. y = n) names)"
    by (rule count_list_filter)
  also have "\<dots> \<le> length (filter (\<lambda>k. resolveManifest S k cp w = Inr m) names)"
    using assms by (intro length_filter_mono) simp
  also have "\<dots> = count_list (resolvedManifests S cp w names) m"
    by (rule count_resolvedManifests [symmetric])
  finally show ?thesis .
qed

lemma count_names_eq:
  assumes "resolveManifest S n cp w = Inr m"
    and "\<forall>k\<in>set names. resolveManifest S k cp w = Inr m \<longrightarrow> k = n"
  shows "count_list (resolvedManifests S cp w names) m = count_list names n"
proof -
  have "filter (\<lambda>k. resolveManifest S k cp w = Inr m) names = filter (\<lambda>k. k = n) names"
    using assms by (intro filter_cong) auto
  then show ?thesis
    by (simp only: count_resolvedManifests count_list_filter [of names n])
qed

lemma count_list_sortManifests:
  "count_list (sortManifests S sortBy ms) m = count_list ms m"
  using mset_sortManifests [of S sortBy ms] by (metis count_mset)


text \<open>
  C10. With an explicit list of names the catalog does not remove duplicates: the list
  collected before sorting has one manifest for every occurrence of a name that resolves,
  and sorting only rearranges it. A manifest is in the result at least as often as a name
  that resolves to it is in the list, and exactly as often where no other name of the list
  resolves to an equal manifest.
\<close>

theorem catalog_keeps_duplicates:
  assumes ex: "fs_exists S (componentsPathOf S source) (world st) = Inr True"
    and ne: "cmpNames \<noteq> []"
  shows
    "\<exists>r st'. getAvailableManifests S sortBy cmpNames source st = (Inr r, st')
       \<and> fst (collectNamed S (componentsPathOf S source) cmpNames [] st)
           = resolvedManifests S (componentsPathOf S source) (world st) cmpNames
       \<and> mset r = mset (resolvedManifests S (componentsPathOf S source) (world st) cmpNames)
       \<and> (\<forall>n m. resolveManifest S n (componentsPathOf S source) (world st) = Inr m \<longrightarrow>
             count_list cmpNames n
               \<le> count_list
                    (resolvedManifests S (componentsPathOf S source) (world st) cmpNames) m
             \<and> count_list cmpNames n \<le> count_list r m)
       \<and> (\<forall>n m. resolveManifest S n (componentsPathOf S source) (world st) = Inr m
               \<and> (\<forall>k\<in>set cmpNames.
                     resolveManifest S k (componentsPathOf S source) (world st) = Inr m
                     \<longrightarrow> k = n)
             \<longrightarrow> count_list
                   (resolvedManifests S (componentsPathOf S source) (world st) cmpNames) m
                   = count_list cmpNames n
                 \<and> count_list r m = count_list cmpNames n)"
proof -
  let ?cp = "componentsPathOf S source"
  let ?pre = "resolvedManifests S ?cp (world st) cmpNames"
  let ?r = "sortManifests S sortBy ?pre"
  have run: "getAvailableManifests S sortBy cmpNames source st
          = (Inr ?r, st\<lparr>logs := logs st @ skipWarnings S ?cp (world st) cmpNames\<rparr>)"
    by (rule catalog_named [OF ex ne])
  have pre: "fst (collectNamed S ?cp cmpNames [] st) = ?pre"
    by (simp add: collectNamed_eq)
  have perm: "mset ?r = mset ?pre"
    by (rule mset_sortManifests)
  have cnt: "\<And>m. count_list ?r m = count_list ?pre m"
    by (rule count_list_sortManifests)
  have le: "\<forall>n m. resolveManifest S n ?cp (world st) = Inr m \<longrightarrow>
             count_list cmpNames n \<le> count_list ?pre m
             \<and> count_list cmpNames n \<le> count_list ?r m"
    using count_names_le [of S _ ?cp "world st" _ cmpNames] cnt by simp
  have eq: "\<forall>n m. resolveManifest S n ?cp (world st) = Inr m
               \<and> (\<forall>k\<in>set cmpNames. resolveManifest S k ?cp (world st) = Inr m \<longrightarrow> k = n)
             \<longrightarrow> count_list ?pre m = count_list cmpNames n
                 \<and> count_list ?r m = count_list cmpNames n"
    using count_names_eq [of S _ ?cp "world st" _ cmpNames] cnt by simp
  from run pre perm le eq show ?thesis by blast
qed


text \<open>The theorem on the names \<open>git\<close>, \<open>git\<close>: the result holds the manifest twice.\<close>

theorem catalog_keeps_duplicates_witness:
  "fs_exists demoSys (componentsPathOf demoSys (Some ''/src'')) (world (initialState demoFs))
     = Inr True
   \<and> count_list [''git'', ''git''] ''git'' = 2
   \<and> (\<exists>r st'. getAvailableManifests demoSys ByPriority [''git'', ''git''] (Some ''/src'')
                   (initialState demoFs) = (Inr r, st')
         \<and> count_list r gitManifest = 2)
   \<and> fst (getAvailableManifests demoSys ByPriority [''git'', ''git''] (Some ''/src'')
            (initialState demoFs))
       = Inr [gitManifest, gitManifest]"
proof -
  let ?st = "initialState demoFs"
  let ?cp = "componentsPathOf demoSys (Some ''/src'')"
  have ex: "fs_exists demoSys ?cp (world ?st) = Inr True"
    by code_simp
  have ne: "[''git'', ''git''] \<noteq> ([] :: string list)"
    by simp
  have g: "resolveManifest demoSys ''git'' ?cp (world ?st) = Inr gitManifest"
    by code_simp
  have c: "count_list [''git'', ''git''] ''git'' = 2"
    by simp
  have only: "\<forall>k\<in>set [''git'', ''git''].
                resolveManifest demoSys k ?cp (world ?st) = Inr gitManifest \<longrightarrow> k = ''git''"
    by simp
  from catalog_keeps_duplicates [OF ex ne, of ByPriority] obtain r st'
    where run: "getAvailableManifests demoSys ByPriority [''git'', ''git''] (Some ''/src'') ?st
                  = (Inr r, st')"
      and eq: "\<forall>n m. resolveManifest demoSys n ?cp (world ?st) = Inr m
               \<and> (\<forall>k\<in>set [''git'', ''git''].
                     resolveManifest demoSys k ?cp (world ?st) = Inr m \<longrightarrow> k = n)
             \<longrightarrow> count_list r m = count_list [''git'', ''git''] n"
    by blast
  from eq g only have "count_list r gitManifest = count_list [''git'', ''git''] ''git''"
    by blast
  with c have two: "count_list r gitManifest = 2" by simp
  have v: "fst (getAvailableManifests demoSys ByPriority [''git'', ''git''] (Some ''/src'') ?st)
             = Inr [gitManifest, gitManifest]"
    by code_simp
  from ex c run two v show ?thesis by blast
qed


section \<open>Properties of the build-command resolver\<close>









text \<open>
  C2 says that resolving build commands leaves the manifest as it was. The code does not:
  \<open>commands\<close> is the manifest's own array, and each script found is pushed onto it. With
  \<open>builds = {"fedora": ["a"], "*": ["b"]}\<close>, machine identifier \<open>fedora\<close> and a script
  \<open>builds/fedora.sh\<close>, the manifest's list for \<open>fedora\<close> is \<open>["a"]\<close> before the call
  and holds the script's command as well after it.
\<close>

theorem getComponentBuilds_mutates_manifest:
  "manifestValue (heap scriptsState) buildsManifestInMemory = buildsManifest
   \<and> fst (getComponentBuilds demoSys ''fedora'' buildsManifestInMemory (Some ''/src'')
            scriptsState) = Inr (Arr 0)
   \<and> builds (manifestValue
               (heap (snd (getComponentBuilds demoSys ''fedora'' buildsManifestInMemory
                             (Some ''/src'') scriptsState)))
               buildsManifestInMemory)
       = Some [(''fedora'', [''a'', bashCommand ''/src/git/builds/fedora.sh'']),
               (''*'', [''b''])]
   \<and> manifestValue
         (heap (snd (getComponentBuilds demoSys ''fedora'' buildsManifestInMemory
                       (Some ''/src'') scriptsState)))
         buildsManifestInMemory
       \<noteq> manifestValue (heap scriptsState) buildsManifestInMemory"
  by code_simp


section \<open>Properties of file placement\<close>

lemma performFileOperation_try_skip:
  assumes "fs_stat S src (world st) = Inr sourceStat"
    and "fs_ensureDir S (url_parent S dst) (world st) = Inr w"
    and "fs_lstat S dst w = Inr destInfo"
    and "\<not> frc" and "\<not> force entry"
  shows "performFileOperation_try S cmpName src dst entry frc st
     = (Inr (), st\<lparr>world := w, logs := logs st @ [SkipDestinationExists dst],
                   calls := calls st @ [EnsureDir (url_parent S dst)]\<rparr>)"
  using assms
  by (simp add: performFileOperation_try_def checkDestination_def called_def logged_def Let_def)

lemma performFileOperation_try_calls:
  assumes "\<forall>w. fs_ensureDir S (url_parent S dst) (world st) = Inr w
                \<longrightarrow> (\<exists>i. fs_lstat S dst w = Inr i)"
    and "\<not> frc" and "\<not> force entry"
  shows "calls (snd (performFileOperation_try S cmpName src dst entry frc st)) = calls st
     \<or> calls (snd (performFileOperation_try S cmpName src dst entry frc st))
         = calls st @ [EnsureDir (url_parent S dst)]"
proof (cases "fs_stat S src (world st)")
  case (Inl e)
  then show ?thesis by (simp add: performFileOperation_try_def)
next
  case (Inr sourceStat)
  note s = this
  show ?thesis
  proof (cases "fs_ensureDir S (url_parent S dst) (world st)")
    case (Inl e)
    with s show ?thesis
      by (simp add: performFileOperation_try_def called_def Let_def)
  next
    case (Inr w)
    with assms(1) obtain i where "fs_lstat S dst w = Inr i" by blast
    from performFileOperation_try_skip [OF s Inr this assms(2,3)] show ?thesis by simp
  qed
qed

text \<open>
  C8, as amended. Let neither force flag be set. When the operation gets as far as the
  destination check (the destination path resolves, \<open>Deno.stat\<close> of the source and
  \<open>ensureDir\<close> of the destination's parent succeed) and the destination exists,
  \<open>performFileOperation\<close> returns normally with exactly one more log line, the skip, and
  exactly one file-system call, that \<open>ensureDir\<close>: the file system is the one
  \<open>ensureDir\<close> left. Whether or not it gets that far, with a destination that exists it
  makes no call but possibly that \<open>ensureDir\<close>: no removal, no copy, no symlink. When
  the destination path does not resolve, the error is thrown with nothing done.
\<close>

theorem performFileOperation_skips_existing:
  assumes nf: "\<not> frc" and ne: "\<not> force entry"
  shows
    "(\<forall>src dst sourceStat w destInfo.
        getResolvedConfigPaths S sourcePath cmpName entry = Inr (src, dst)
        \<and> fs_stat S src (world st) = Inr sourceStat
        \<and> fs_ensureDir S (url_parent S dst) (world st) = Inr w
        \<and> fs_lstat S dst w = Inr destInfo
        \<longrightarrow> performFileOperation S sourcePath cmpName entry frc st
             = (Inr (), st\<lparr>world := w, logs := logs st @ [SkipDestinationExists dst],
                           calls := calls st @ [EnsureDir (url_parent S dst)]\<rparr>))
     \<and> (\<forall>src dst.
           getResolvedConfigPaths S sourcePath cmpName entry = Inr (src, dst)
           \<and> (\<forall>w. fs_ensureDir S (url_parent S dst) (world st) = Inr w
                    \<longrightarrow> (\<exists>i. fs_lstat S dst w = Inr i))
           \<longrightarrow> calls (snd (performFileOperation S sourcePath cmpName entry frc st)) = calls st
               \<or> calls (snd (performFileOperation S sourcePath cmpName entry frc st))
                   = calls st @ [EnsureDir (url_parent S dst)])
     \<and> (\<forall>e. getResolvedConfigPaths S sourcePath cmpName entry = Inl e
           \<longrightarrow> performFileOperation S sourcePath cmpName entry frc st = (Inl e, st))"
proof (intro conjI allI impI)
  fix src dst sourceStat w destInfo
  assume a: "getResolvedConfigPaths S sourcePath cmpName entry = Inr (src, dst)
        \<and> fs_stat S src (world st) = Inr sourceStat
        \<and> fs_ensureDir S (url_parent S dst) (world st) = Inr w
        \<and> fs_lstat S dst w = Inr destInfo"
  then have "performFileOperation_try S cmpName src dst entry frc st
     = (Inr (), st\<lparr>world := w, logs := logs st @ [SkipDestinationExists dst],
                   calls := calls st @ [EnsureDir (url_parent S dst)]\<rparr>)"
    using performFileOperation_try_skip [of S src st sourceStat dst w destInfo frc entry cmpName]
      nf ne by blast
  with a show "performFileOperation S sourcePath cmpName entry frc st
             = (Inr (), st\<lparr>world := w, logs := logs st @ [SkipDestinationExists dst],
                           calls := calls st @ [EnsureDir (url_parent S dst)]\<rparr>)"
    by (simp add: performFileOperation_def)
next
  fix src dst
  assume a: "getResolvedConfigPaths S sourcePath cmpName entry = Inr (src, dst)
           \<and> (\<forall>w. fs_ensureDir S (url_parent S dst) (world st) = Inr w
                    \<longrightarrow> (\<exists>i. fs_lstat S dst w = Inr i))"
  then have p: "getResolvedConfigPaths S sourcePath cmpName entry = Inr (src, dst)"
    and d: "\<forall>w. fs_ensureDir S (url_parent S dst) (world st) = Inr w
                    \<longrightarrow> (\<exists>i. fs_lstat S dst w = Inr i)"
    by blast+
  have "calls (snd (performFileOperation S sourcePath cmpName entry frc st))
          = calls (snd (performFileOperation_try S cmpName src dst entry frc st))"
    using p by (simp add: performFileOperation_def logged_def split: prod.splits sum.splits)
  with performFileOperation_try_calls [OF d nf ne, where src = src and cmpName = cmpName]
  show "calls (snd (performFileOperation S sourcePath cmpName entry frc st)) = calls st
               \<or> calls (snd (performFileOperation S sourcePath cmpName entry frc st))
                   = calls st @ [EnsureDir (url_parent S dst)]"
    by simp
next
  fix e
  assume "getResolvedConfigPaths S sourcePath cmpName entry = Inl e"
  then show "performFileOperation S sourcePath cmpName entry frc st = (Inl e, st)"
    by (simp add: performFileOperation_def)
qed


text \<open>
  The theorem on a second install of \<open>git\<close> without force: the link
  \<open>/home/u/.gitconfig\<close> exists, the entry is skipped and the file system is as before.
\<close>

theorem performFileOperation_skips_existing_witness:
  "\<not> force gitEntry
   \<and> getResolvedConfigPaths demoSys ''/src'' ''git'' gitEntry
       = Inr (''/src/git/gitconfig'', ''/home/u/.gitconfig'')
   \<and> fs_lstat demoSys ''/home/u/.gitconfig'' installedFs
       = Inr \<lparr>isFile = False, isDirectory = False, isSymlink = True, mode = Some 511\<rparr>
   \<and> performFileOperation demoSys ''/src'' ''git'' gitEntry False (initialState installedFs)
       = (Inr (),
          \<lparr>world = installedFs, logs = [SkipDestinationExists ''/home/u/.gitconfig''],
           calls = [EnsureDir ''/home/u/''], heap = []\<rparr>)"
proof -
  let ?st = "initialState installedFs"
  have nf: "\<not> False" and ne: "\<not> force gitEntry"
    by (simp_all add: gitEntry_def)
  have p: "getResolvedConfigPaths demoSys ''/src'' ''git'' gitEntry
             = Inr (''/src/git/gitconfig'', ''/home/u/.gitconfig'')"
    by code_simp
  have s: "fs_stat demoSys ''/src/git/gitconfig'' (world ?st)
             = Inr \<lparr>isFile = True, isDirectory = False, isSymlink = False, mode = Some 420\<rparr>"
    by code_simp
  have d: "fs_ensureDir demoSys (url_parent demoSys ''/home/u/.gitconfig'') (world ?st)
             = Inr installedFs"
    by code_simp
  have l: "fs_lstat demoSys ''/home/u/.gitconfig'' installedFs
             = Inr \<lparr>isFile = False, isDirectory = False, isSymlink = True, mode = Some 511\<rparr>"
    by code_simp
  have u: "url_parent demoSys ''/home/u/.gitconfig'' = ''/home/u/''"
    by code_simp
  have r: "?st\<lparr>world := installedFs,
               logs := logs ?st @ [SkipDestinationExists ''/home/u/.gitconfig''],
               calls := calls ?st @ [EnsureDir ''/home/u/'']\<rparr>
             = \<lparr>world = installedFs, logs = [SkipDestinationExists ''/home/u/.gitconfig''],
                calls = [EnsureDir ''/home/u/''], heap = []\<rparr>"
    by (simp add: initialState_def)
  from performFileOperation_skips_existing [OF nf ne, of demoSys "''/src''" "''git''" ?st]
    p s d l
  have "performFileOperation demoSys ''/src'' ''git'' gitEntry False ?st
          = (Inr (), ?st\<lparr>world := installedFs,
                logs := logs ?st @ [SkipDestinationExists ''/home/u/.gitconfig''],
                calls := calls ?st
                          @ [EnsureDir (url_parent demoSys ''/home/u/.gitconfig'')]\<rparr>)"
    by blast
  then have "performFileOperation demoSys ''/src'' ''git'' gitEntry False ?st
          = (Inr (),
             \<lparr>world = installedFs, logs = [SkipDestinationExists ''/home/u/.gitconfig''],
              calls = [EnsureDir ''/home/u/''], heap = []\<rparr>)"
    by (simp only: u r)
  with ne p l show ?thesis by blast
qed

text \<open>
  C8 as stated says that every operation on an existing destination without force is
  skipped and reported as a skip. With a source that does not exist the code throws at
  \<open>Deno.stat(from)\<close>, before it looks at the destination: it logs an error, not a skip.
\<close>

theorem performFileOperation_missing_source_counterexample:
  "\<not> force lostEntry
   \<and> fs_lstat demoSys ''/home/u/.gitconfig'' installedFs
       = Inr \<lparr>isFile = False, isDirectory = False, isSymlink = True, mode = Some 511\<rparr>
   \<and> performFileOperation demoSys ''/src'' ''git'' lostEntry False (initialState installedFs)
       = (Inl (NotFound ''/src/git/lost''),
          \<lparr>world = installedFs,
           logs = [ErrorFileOperation ''git'' ''/src/git/lost'' ''/home/u/.gitconfig''
                     (NotFound ''/src/git/lost'')],
           calls = [], heap = []\<rparr>)
   \<and> SkipDestinationExists ''/home/u/.gitconfig''
       \<notin> set (logs (snd (performFileOperation demoSys ''/src'' ''git'' lostEntry False
                            (initialState installedFs))))"
  by code_simp


end
